theory Spec2Isabelle
  imports Main "HOL-Library.Word" "HOL-Library.AList"
begin

section \<open>JavaScript values\<close>

text \<open>
  The gateway of \<^verbatim>\<open>src/index.js\<close> is an Express application. Its request bodies,
  query parameters and upstream payloads are JSON values; a property that is not there
  reads as \<^verbatim>\<open>undefined\<close>. Numbers are modelled as integers (no claim depends on
  fractions), strings as lists of 8-bit characters, which is what Node hands out for a
  header value.
\<close>

datatype json =
    JNull
  | JBool bool
  | JNum int
  | JStr string
  | JArr "json list"
  | JObj "(string \<times> json) list"

text \<open>
  A value read from a property: \<^verbatim>\<open>undefined\<close>, plain data, or a function (or any other
  object that is not plain data; only its truthiness matters here).
\<close>

datatype jsval = Undefined | Json json | Function string

text \<open>JavaScript truthiness, as used by \<^verbatim>\<open>!x\<close> and \<^verbatim>\<open>x || y\<close>.\<close>

fun truthy :: "jsval \<Rightarrow> bool" where
  "truthy Undefined = False"
| "truthy (Json JNull) = False"
| "truthy (Json (JBool b)) = b"
| "truthy (Json (JNum n)) = (n \<noteq> 0)"
| "truthy (Json (JStr s)) = (s \<noteq> [])"
| "truthy (Json (JArr xs)) = True"
| "truthy (Json (JObj fs)) = True"
| "truthy (Function f) = True"

text \<open>Reading a field of an object literal or of a parsed JSON object: \<^verbatim>\<open>o.k\<close>.\<close>

definition field :: "(string \<times> json) list \<Rightarrow> string \<Rightarrow> jsval" where
  "field fs k = (case map_of fs k of None \<Rightarrow> Undefined | Some v \<Rightarrow> Json v)"

text \<open>
  \<^verbatim>\<open>JSON.stringify\<close> of an object literal, as \<^verbatim>\<open>res.json\<close> applies it: a property whose
  value is \<^verbatim>\<open>undefined\<close> or a function is left out.
\<close>

fun json_fields :: "(string \<times> jsval) list \<Rightarrow> (string \<times> json) list" where
  "json_fields [] = []"
| "json_fields ((k, Json v) # fs) = (k, v) # json_fields fs"
| "json_fields ((k, Undefined) # fs) = json_fields fs"
| "json_fields ((k, Function f) # fs) = json_fields fs"

section \<open>Objects, prototypes and thrown values\<close>

text \<open>
  An object is its own properties, in creation order, and its prototype. A property holds
  data, or is an accessor whose getter returns a value, or is an accessor whose getter
  throws an \<^verbatim>\<open>Error\<close> with the given message. What a getter does is taken to be the same
  for every receiver.
\<close>

datatype slot = Data jsval | Getter jsval | Throws string

datatype obj = Obj (props: "(string \<times> slot) list") (proto: "obj option")

text \<open>
  A value that \<^verbatim>\<open>catch\<close> can receive: \<^verbatim>\<open>null\<close>, \<^verbatim>\<open>undefined\<close> or an object. Thrown
  strings and numbers are not modelled.
\<close>

datatype errval = ENull | EUndefined | EObj obj

definition Object_prototype :: obj where
  "Object_prototype = Obj
     [(''constructor'', Data (Function ''Object'')),
      (''__defineGetter__'', Data (Function ''__defineGetter__'')),
      (''__defineSetter__'', Data (Function ''__defineSetter__'')),
      (''hasOwnProperty'', Data (Function ''hasOwnProperty'')),
      (''__lookupGetter__'', Data (Function ''__lookupGetter__'')),
      (''__lookupSetter__'', Data (Function ''__lookupSetter__'')),
      (''isPrototypeOf'', Data (Function ''isPrototypeOf'')),
      (''propertyIsEnumerable'', Data (Function ''propertyIsEnumerable'')),
      (''toString'', Data (Function ''toString'')),
      (''valueOf'', Data (Function ''valueOf'')),
      (''__proto__'', Getter (Json JNull)),
      (''toLocaleString'', Data (Function ''toLocaleString''))]
     None"

definition Error_prototype :: obj where
  "Error_prototype = Obj
     [(''constructor'', Data (Function ''Error'')),
      (''name'', Data (Json (JStr ''Error''))),
      (''message'', Data (Json (JStr ''''))),
      (''toString'', Data (Function ''toString''))]
     (Some Object_prototype)"

text \<open>
  \<^verbatim>\<open>new E(msg)\<close> for \<^verbatim>\<open>Error\<close> itself or one of the built-in subclasses
  (\<^verbatim>\<open>TypeError\<close>, \<^verbatim>\<open>RangeError\<close>). The text of the stack trace is not modelled.
\<close>

definition js_error :: "string \<Rightarrow> string \<Rightarrow> errval" where
  "js_error name msg =
     (let own = [(''stack'', Data (Json (JStr (name @ '': '' @ msg)))),
                 (''message'', Data (Json (JStr msg)))]
      in if name = ''Error'' then EObj (Obj own (Some Error_prototype))
         else EObj (Obj own (Some (Obj
           [(''constructor'', Data (Function name)),
            (''name'', Data (Json (JStr name))),
            (''message'', Data (Json (JStr '''')))]
           (Some Error_prototype)))))"

text \<open>\<^verbatim>\<open>o[p]\<close>: the own property if there is one, else the prototype's, else \<^verbatim>\<open>undefined\<close>.\<close>

fun get_prop :: "obj \<Rightarrow> string \<Rightarrow> errval + jsval" where
  "get_prop (Obj ps pr) p =
     (case map_of ps p of
        Some (Data v) \<Rightarrow> Inr v
      | Some (Getter v) \<Rightarrow> Inr v
      | Some (Throws m) \<Rightarrow> Inl (js_error ''Error'' m)
      | None \<Rightarrow> (case pr of None \<Rightarrow> Inr Undefined | Some q \<Rightarrow> get_prop q p))"

text \<open>
  \<^verbatim>\<open>e.p\<close> on a caught value: reading a property of \<^verbatim>\<open>null\<close> or \<^verbatim>\<open>undefined\<close> throws
  a \<^verbatim>\<open>TypeError\<close> whose message names the property in single quotes.
\<close>

fun read :: "errval \<Rightarrow> string \<Rightarrow> errval + jsval" where
  "read ENull p =
     Inl (js_error ''TypeError''
            (''Cannot read properties of null (reading '' @ [CHR 0x27] @ p @ [CHR 0x27] @ '')''))"
| "read EUndefined p =
     Inl (js_error ''TypeError''
            (''Cannot read properties of undefined (reading '' @ [CHR 0x27] @ p @ [CHR 0x27] @ '')''))"
| "read (EObj ob) p = get_prop ob p"

text \<open>Sequencing of steps that may throw: the first exception ends the sequence.\<close>

definition and_then :: "'x + 'a \<Rightarrow> ('a \<Rightarrow> 'x + 'b) \<Rightarrow> 'x + 'b" where
  "and_then step rest = (case step of Inl thrown \<Rightarrow> Inl thrown | Inr v \<Rightarrow> rest v)"

section \<open>The error normalizer\<close>

text \<open>
  \<^verbatim>\<open>serializeError\<close> of \<^verbatim>\<open>src/index.js\<close>. The object it returns has the five fields
  read from the error and, added afterwards, either \<^verbatim>\<open>allProperties\<close> or
  \<^verbatim>\<open>serializationError\<close>.
\<close>

record errorObj =
  message :: jsval
  name :: jsval
  code :: jsval
  data :: jsval
  stack :: jsval
  allProperties :: "(string \<times> jsval) list option"
  serializationError :: "jsval option"

text \<open>
  \<^verbatim>\<open>allProps[prop]\<close>, where \<^verbatim>\<open>allProps\<close> starts as the literal \<^verbatim>\<open>{}\<close>: a name that has
  not been stored yet is looked up on \<^verbatim>\<open>Object.prototype\<close>, whose members are all
  truthy when read through \<^verbatim>\<open>allProps\<close> (functions, and for \<^verbatim>\<open>__proto__\<close> the
  prototype itself).
\<close>

definition allProps_get :: "(string \<times> jsval) list \<Rightarrow> string \<Rightarrow> jsval" where
  "allProps_get a p =
     (case map_of a p of
        Some v \<Rightarrow> v
      | None \<Rightarrow> if p \<in> set (map fst (props Object_prototype)) then Function p else Undefined)"

text \<open>
  The body of the \<^verbatim>\<open>forEach\<close> callback, for the object \<^verbatim>\<open>ob\<close> whose own name
  \<^verbatim>\<open>p\<close> is visited: the inner \<^verbatim>\<open>try\<close> stores \<^verbatim>\<open>ob[p]\<close>, the inner \<^verbatim>\<open>catch\<close>
  stores the marker string.
\<close>

definition capture :: "obj \<Rightarrow> (string \<times> jsval) list \<Rightarrow> string \<Rightarrow> (string \<times> jsval) list" where
  "capture ob a p =
     (if \<not> truthy (allProps_get a p) \<and> p \<noteq> ''stack'' then
        (case get_prop ob p of
           Inr v \<Rightarrow> AList.update p v a
         | Inl e \<Rightarrow> AList.update p (Json (JStr ''[Cannot access]'')) a)
      else a)"

text \<open>
  The \<^verbatim>\<open>do ... while ((obj = Object.getPrototypeOf(obj)))\<close> loop: every level of the
  prototype chain, the error itself first.
\<close>

fun walk :: "obj \<Rightarrow> (string \<times> jsval) list \<Rightarrow> (string \<times> jsval) list" where
  "walk (Obj ps pr) a =
     (let a' = foldl (capture (Obj ps pr)) a (map fst ps)
      in case pr of None \<Rightarrow> a' | Some q \<Rightarrow> walk q a')"

definition serializeError :: "errval \<Rightarrow> errval + errorObj" where
  "serializeError error =
     and_then (read error ''message'') (\<lambda>m.
     and_then (read error ''name'') (\<lambda>n.
     and_then (read error ''code'') (\<lambda>c.
     and_then (read error ''data'') (\<lambda>d.
     and_then (read error ''stack'') (\<lambda>s.
       let errorObj = \<lparr>message = m, name = n, code = c, data = d, stack = s,
                        allProperties = None, serializationError = None\<rparr>
       in case error of
            EObj ob \<Rightarrow> Inr (errorObj\<lparr>allProperties := Some (walk ob [])\<rparr>)
          | _ \<Rightarrow> Inr (errorObj\<lparr>serializationError :=
                        Some (Json (JStr ''Cannot convert undefined or null to object''))\<rparr>))))))"

section \<open>Configuration, collaborators, requests and responses\<close>

text \<open>
  The environment variables read at the top of \<^verbatim>\<open>src/index.js\<close>; \<open>None\<close> is a
  variable that is not set. \<^verbatim>\<open>!API_KEY\<close> holds for an unset and for an empty variable.
\<close>

record config =
  MCP_SERVER_URL :: "string option"
  API_KEY :: "string option"
  NODE_ENV :: "string option"

definition unset :: "string option \<Rightarrow> bool" where
  "unset v = (case v of None \<Rightarrow> True | Some s \<Rightarrow> s = [])"

text \<open>The argument of \<^verbatim>\<open>mcpClient.callTool\<close>: \<^verbatim>\<open>{ name, arguments }\<close>.\<close>

record toolCall =
  name :: string
  arguments :: "(string \<times> jsval) list"

text \<open>
  What the gateway does not contain and only calls: Node's \<^verbatim>\<open>Buffer.from\<close> and
  \<^verbatim>\<open>URL\<close>, and the upstream SDK (transport, client, \<^verbatim>\<open>connect\<close>, \<^verbatim>\<open>listTools\<close>,
  \<^verbatim>\<open>callTool\<close>, \<^verbatim>\<open>close\<close>). Each may throw or reject (\<open>Inl\<close>, or \<open>Some\<close> of the
  thrown value for a call that returns nothing); the theorems hold for every behaviour.
\<close>

record world =
  Buffer_from :: "string \<Rightarrow> errval + 8 word list"
  new_URL :: "string \<Rightarrow> errval option"
  new_SSEClientTransport :: "errval option"
  new_Client :: "errval option"
  connect :: "errval option"
  listTools :: "errval + json"
  callTool :: "toolCall \<Rightarrow> errval + json"
  close :: "errval option"

text \<open>
  A request as the handlers see it: \<^verbatim>\<open>req.headers\<close> (names in lower case),
  \<^verbatim>\<open>req.body\<close> as parsed by \<^verbatim>\<open>express.json\<close>, \<^verbatim>\<open>req.query\<close>, and the request id
  \<^verbatim>\<open>Date.now().toString(36)\<close> that the handler draws on entry.
\<close>

record request =
  headers :: "string \<rightharpoonup> string"
  body :: "(string \<times> json) list"
  query :: "(string \<times> json) list"
  requestId :: string

record response =
  status :: nat
  payload :: json

text \<open>\<^verbatim>\<open>res.status(n).json({...})\<close> and \<^verbatim>\<open>res.json(v)\<close>, whose status is 200.\<close>

definition status_json :: "nat \<Rightarrow> (string \<times> jsval) list \<Rightarrow> response" where
  "status_json n fs = \<lparr>status = n, payload = JObj (json_fields fs)\<rparr>"

definition res_json :: "json \<Rightarrow> response" where
  "res_json v = \<lparr>status = 200, payload = v\<rparr>"

section \<open>The credential verifier\<close>

text \<open>
  \<^verbatim>\<open>String.prototype.replace\<close> with a string pattern: the first occurrence only.
\<close>

fun replace :: "string \<Rightarrow> string \<Rightarrow> string \<Rightarrow> string" where
  "replace pat rep [] = (if pat = [] then rep else [])"
| "replace pat rep (c # cs) =
     (if take (length pat) (c # cs) = pat then rep @ drop (length pat) (c # cs)
      else c # replace pat rep cs)"

text \<open>
  The local constant \<^verbatim>\<open>apiKey\<close>:
  \<^verbatim>\<open>req.headers["x-api-key"] || req.headers["authorization"]?.replace("Bearer ", "")\<close>.
\<close>

definition apiKey :: "request \<Rightarrow> string option" where
  "apiKey req =
     (if \<not> unset (headers req ''x-api-key'') then headers req ''x-api-key''
      else map_option (replace ''Bearer '' '''') (headers req ''authorization''))"

text \<open>
  \<^verbatim>\<open>crypto.timingSafeEqual\<close>: a \<^verbatim>\<open>RangeError\<close> for buffers of different length,
  else whether the bytes are the same.
\<close>

definition timingSafeEqual :: "8 word list \<Rightarrow> 8 word list \<Rightarrow> errval + bool" where
  "timingSafeEqual a b =
     (if length a \<noteq> length b
      then Inl (js_error ''RangeError'' ''Input buffers must have the same byte length'')
      else Inr (a = b))"

text \<open>A middleware either calls \<^verbatim>\<open>next()\<close> or answers the request itself.\<close>

datatype decision = Next | Respond response

definition authentication_required :: response where
  "authentication_required = status_json 401
     [(''error'', Json (JStr ''Authentication required'')),
      (''message'', Json (JStr
         ''Please provide an API key via X-API-Key header or Authorization: Bearer <key>''))]"

definition invalid_api_key :: response where
  "invalid_api_key = status_json 403
     [(''error'', Json (JStr ''Invalid API key'')),
      (''message'', Json (JStr ''The provided API key is not valid''))]"

text \<open>
  \<^verbatim>\<open>authenticateApiKey\<close>: the lines it writes with \<^verbatim>\<open>console.warn\<close>, and what it
  decides. The three \<^verbatim>\<open>return res.status(403)\<close> of the source are the three places
  where \<open>invalid_api_key\<close> is answered; an exception inside the \<^verbatim>\<open>try\<close> reaches the
  \<^verbatim>\<open>catch\<close>, which answers the same.
\<close>

definition request_warning :: string where
  "request_warning = ''Warning: API_KEY not set - API is running without authentication''"

definition authenticateApiKey :: "world \<Rightarrow> config \<Rightarrow> request \<Rightarrow> string list \<times> decision" where
  "authenticateApiKey w cfg req =
     (if unset (API_KEY cfg)
      then ([request_warning], Next)
      else if unset (apiKey req) then ([], Respond authentication_required)
      else
        (case and_then (Buffer_from w (the (apiKey req))) (\<lambda>apiKeyBuffer.
              and_then (Buffer_from w (the (API_KEY cfg))) (\<lambda>validKeyBuffer.
                if length apiKeyBuffer \<noteq> length validKeyBuffer
                then Inr (Respond invalid_api_key)
                else and_then (timingSafeEqual apiKeyBuffer validKeyBuffer) (\<lambda>eq.
                  if \<not> eq then Inr (Respond invalid_api_key) else Inr Next)))
         of Inl error \<Rightarrow> ([], Respond invalid_api_key)
          | Inr d \<Rightarrow> ([], d)))"

text \<open>
  \<^verbatim>\<open>Buffer.from\<close> as Node performs it on a string of 8-bit characters: the UTF-8
  encoding, one byte below 128 and two bytes from there on. It does not throw.
\<close>

definition utf8 :: "char \<Rightarrow> 8 word list" where
  "utf8 c =
     (let n = (of_char c :: nat)
      in if n < 128 then [of_nat n] else [of_nat (192 + n div 64), of_nat (128 + n mod 64)])"

definition node_Buffer_from :: "string \<Rightarrow> errval + 8 word list" where
  "node_Buffer_from s = Inr (concat (map utf8 s))"

section \<open>The upstream session\<close>

text \<open>
  The module keeps the session in \<^verbatim>\<open>let mcpClient\<close>, unset until \<^verbatim>\<open>initMCPClient\<close>
  assigns it. The value of \<open>mcpClient\<close> below is the state of the SDK client that the
  variable holds: created, connected once \<^verbatim>\<open>connect\<close> has resolved, closed once
  \<^verbatim>\<open>close\<close> has been called.
\<close>

datatype client = Created | Connected | Closed

datatype effect =
    ConsoleWarn string
  | InitMCPClient
  | ClientConnect
  | ClientListTools
  | ClientCallTool toolCall
  | ClientClose
  | AppListen
  | ServerClose
  | SetTimeout nat

text \<open>
  The HTTP server returned by \<^verbatim>\<open>app.listen\<close>: whether it still accepts connections,
  how many callbacks \<^verbatim>\<open>server.close(callback)\<close> has registered for its \<^verbatim>\<open>close\<close>
  event, and whether that event has been emitted, after which the server has no connection
  left and gets none.
\<close>

record srv =
  listening :: bool
  onClose :: nat
  drained :: bool

text \<open>
  The process: the module-level variables \<^verbatim>\<open>mcpTransport\<close>, \<^verbatim>\<open>mcpClient\<close> and
  \<^verbatim>\<open>server\<close>, the armed force-exit timers, the number of shutdown callbacks that are
  suspended at \<^verbatim>\<open>await mcpClient.close()\<close>, the exit code once the process has ended,
  and the calls made so far to the collaborators, in order. Of the console output only
  the two \<^verbatim>\<open>console.warn\<close> lines are recorded.
\<close>

record proc =
  mcpTransport :: bool
  mcpClient :: "client option"
  server :: "srv option"
  timers :: nat
  closing :: nat
  exited :: "int option"
  trace :: "effect list"

definition emit :: "effect list \<Rightarrow> proc \<Rightarrow> proc" where
  "emit es st = st\<lparr>trace := trace st @ es\<rparr>"

text \<open>
  \<^verbatim>\<open>console.error(..., serializeError(e))\<close>: the logging itself throws when
  \<^verbatim>\<open>serializeError\<close> does (\<^verbatim>\<open>JSON.stringify\<close> of its result is taken not to
  throw). \<open>rethrow e\<close> is what leaves a
  \<^verbatim>\<open>catch (e) { console.error(..., serializeError(e)); throw e }\<close>.
\<close>

definition logged :: "errval \<Rightarrow> errval option" where
  "logged e = (case serializeError e of Inl e' \<Rightarrow> Some e' | Inr x \<Rightarrow> None)"

definition rethrow :: "errval \<Rightarrow> errval" where
  "rethrow e = (case logged e of Some e' \<Rightarrow> e' | None \<Rightarrow> e)"

text \<open>
  \<^verbatim>\<open>initMCPClient\<close> of \<^verbatim>\<open>src/index.js\<close>: the process afterwards and the exception
  it ends with, if any. The client is assigned to \<^verbatim>\<open>mcpClient\<close> before
  \<^verbatim>\<open>connect\<close> is awaited and stays assigned when \<^verbatim>\<open>connect\<close> rejects. A failure of
  the \<^verbatim>\<open>listTools\<close> probe is logged and not thrown.
\<close>

definition initMCPClient :: "world \<Rightarrow> config \<Rightarrow> proc \<Rightarrow> proc \<times> errval option" where
  "initMCPClient w cfg st0 =
     (let st = emit [InitMCPClient] st0 in
      if unset (MCP_SERVER_URL cfg)
      then (st, Some (js_error ''Error'' ''MCP_SERVER_URL environment variable is required''))
      else
        (case new_URL w (the (MCP_SERVER_URL cfg)) of
           Some urlError \<Rightarrow>
             (case read urlError ''message'' of
                Inl e \<Rightarrow> (st, Some e)
              | Inr m \<Rightarrow> (st, Some urlError))
         | None \<Rightarrow>
             (case new_SSEClientTransport w of
                Some transportError \<Rightarrow> (st, Some (rethrow transportError))
              | None \<Rightarrow>
                  (let st = st\<lparr>mcpTransport := True\<rparr> in
                   case new_Client w of
                     Some clientError \<Rightarrow> (st, Some (rethrow clientError))
                   | None \<Rightarrow>
                       (let st = emit [ClientConnect] (st\<lparr>mcpClient := Some Created\<rparr>) in
                        case connect w of
                          Some connectError \<Rightarrow> (st, Some (rethrow connectError))
                        | None \<Rightarrow>
                            (let st = emit [ClientListTools] (st\<lparr>mcpClient := Some Connected\<rparr>) in
                             case listTools w of
                               Inr testTools \<Rightarrow> (st, None)
                             | Inl testError \<Rightarrow>
                                 (case logged testError of
                                    None \<Rightarrow> (st, None)
                                  | Some e \<Rightarrow> (st, Some (rethrow e)))))))))"

text \<open>
  The top level of the module, from the checks of the environment to \<^verbatim>\<open>app.listen\<close>.
  \<^verbatim>\<open>process.exit(n)\<close> ends the process with code \<open>n\<close>; an exception that nothing
  catches ends it with code 1, as Node does. \<^verbatim>\<open>app.listen\<close> is taken to succeed.
\<close>

definition initial :: proc where
  "initial = \<lparr>mcpTransport = False, mcpClient = None, server = None, timers = 0,
               closing = 0, exited = None, trace = []\<rparr>"

definition process_exit :: "int \<Rightarrow> proc \<Rightarrow> proc" where
  "process_exit n st = st\<lparr>exited := Some n\<rparr>"

definition uncaught :: "errval \<Rightarrow> proc \<Rightarrow> proc" where
  "uncaught e st = st\<lparr>exited := Some 1\<rparr>"

text \<open>The third check of the environment: \<^verbatim>\<open>if (!API_KEY) console.warn(...)\<close>.\<close>

definition startup_warning :: string where
  "startup_warning =
     ''WARNING: API_KEY not set - API is running without authentication (not recommended)''"

definition warned :: "config \<Rightarrow> proc" where
  "warned cfg =
     (if unset (API_KEY cfg) then emit [ConsoleWarn startup_warning] initial else initial)"

definition start :: "world \<Rightarrow> config \<Rightarrow> proc" where
  "start w cfg =
     (if unset (MCP_SERVER_URL cfg) then process_exit 1 initial
      else if unset (API_KEY cfg) \<and> NODE_ENV cfg = Some ''production'' then process_exit 1 initial
      else
        (case initMCPClient w cfg (warned cfg) of
           (st, None) \<Rightarrow>
             emit [AppListen]
               (st\<lparr>server := Some \<lparr>listening = True, onClose = 0, drained = False\<rparr>\<rparr>)
         | (st, Some error) \<Rightarrow>
             (case logged error of
                None \<Rightarrow> process_exit 1 st
              | Some e \<Rightarrow> uncaught e st)))"

section \<open>The request gateway\<close>

text \<open>
  A handler either sends a response or, when its \<^verbatim>\<open>catch\<close> block throws itself, ends
  with an exception and sends nothing. Beside the reply stands the list of calls it made
  to the upstream client.
\<close>

datatype reply = Sent response | Unhandled errval

datatype upcall = ListTools | CallTool toolCall

record outcome =
  reply :: reply
  calls :: "upcall list"

definition not_initialized :: response where
  "not_initialized = status_json 503 [(''error'', Json (JStr ''MCP client not initialized''))]"

definition query_required :: response where
  "query_required = status_json 400 [(''error'', Json (JStr ''query is required''))]"

definition customer_id_required :: response where
  "customer_id_required = status_json 400 [(''error'', Json (JStr ''customer_id is required''))]"

text \<open>
  The \<^verbatim>\<open>catch (error)\<close> block shared by the handlers of \<^verbatim>\<open>src/index.js\<close>: it logs
  \<^verbatim>\<open>serializeError(error)\<close> and answers 500 with the error's message, code and data
  and the request id.
\<close>

definition failed :: "string \<Rightarrow> errval \<Rightarrow> reply" where
  "failed rid error =
     (case and_then (serializeError error) (\<lambda>serialized.
           and_then (read error ''message'') (\<lambda>m.
           and_then (read error ''code'') (\<lambda>c.
           and_then (read error ''data'') (\<lambda>d.
             Inr (status_json 500
                    [(''error'', m), (''code'', c), (''data'', d),
                     (''requestId'', Json (JStr rid))])))))
      of Inl e \<Rightarrow> Unhandled e | Inr r \<Rightarrow> Sent r)"

text \<open>\<^verbatim>\<open>x || null\<close>.\<close>

definition or_null :: "jsval \<Rightarrow> jsval" where
  "or_null x = (if truthy x then x else Json JNull)"

text \<open>
  The part of a handler from \<^verbatim>\<open>mcpClient.callTool(toolCall)\<close> on: the result is sent
  with \<^verbatim>\<open>res.json\<close>, a rejection goes to the \<^verbatim>\<open>catch\<close> block.
\<close>

definition call_and_send :: "world \<Rightarrow> string \<Rightarrow> toolCall \<Rightarrow> outcome" where
  "call_and_send w rid toolCall =
     (case callTool w toolCall of
        Inr result \<Rightarrow> \<lparr>reply = Sent (res_json result), calls = [CallTool toolCall]\<rparr>
      | Inl error \<Rightarrow> \<lparr>reply = failed rid error, calls = [CallTool toolCall]\<rparr>)"

text \<open>
  \<^verbatim>\<open>GET /api/tools\<close>. The line that logs \<^verbatim>\<open>tools.tools?.length\<close> throws a
  \<^verbatim>\<open>TypeError\<close> when the upstream answer is \<^verbatim>\<open>null\<close>.
\<close>

definition get_tools :: "world \<Rightarrow> proc \<Rightarrow> request \<Rightarrow> outcome" where
  "get_tools w st req =
     (if mcpClient st = None then \<lparr>reply = Sent not_initialized, calls = []\<rparr>
      else
        (case listTools w of
           Inl error \<Rightarrow> \<lparr>reply = failed (requestId req) error, calls = [ListTools]\<rparr>
         | Inr tools \<Rightarrow>
             if tools = JNull
             then \<lparr>reply = failed (requestId req)
                      (js_error ''TypeError'' ''Cannot read properties of null (reading 'tools')''),
                   calls = [ListTools]\<rparr>
             else \<lparr>reply = Sent (res_json tools), calls = [ListTools]\<rparr>))"

text \<open>\<^verbatim>\<open>GET /api/google-ads/accounts\<close>.\<close>

definition get_accounts :: "world \<Rightarrow> proc \<Rightarrow> request \<Rightarrow> outcome" where
  "get_accounts w st req =
     (if mcpClient st = None then \<lparr>reply = Sent not_initialized, calls = []\<rparr>
      else call_and_send w (requestId req)
             \<lparr>name = ''list_accessible_accounts'', arguments = []\<rparr>)"

text \<open>
  \<^verbatim>\<open>POST /api/google-ads/execute-gaql\<close> of \<^verbatim>\<open>src/index.js\<close>. Before it validates,
  the handler logs \<^verbatim>\<open>query?.substring(0, 100) + "..."\<close>: the optional chain stops at
  \<^verbatim>\<open>undefined\<close> and \<^verbatim>\<open>null\<close> only, so for a \<^verbatim>\<open>query\<close> that is neither of them nor
  a string the call of \<^verbatim>\<open>substring\<close> throws a \<^verbatim>\<open>TypeError\<close>, which the
  \<^verbatim>\<open>catch\<close> block answers.
\<close>

definition has_substring :: "jsval \<Rightarrow> bool" where
  "has_substring q =
     (case q of Undefined \<Rightarrow> True | Json JNull \<Rightarrow> True | Json (JStr s) \<Rightarrow> True | _ \<Rightarrow> False)"

definition post_execute_gaql :: "world \<Rightarrow> proc \<Rightarrow> request \<Rightarrow> outcome" where
  "post_execute_gaql w st req =
     (if mcpClient st = None then \<lparr>reply = Sent not_initialized, calls = []\<rparr>
      else
        (let query = field (body req) ''query'';
             customer_id = field (body req) ''customer_id'';
             login_customer_id = field (body req) ''login_customer_id''
         in if \<not> has_substring query
            then \<lparr>reply = failed (requestId req)
                     (js_error ''TypeError'' ''query?.substring is not a function''),
                  calls = []\<rparr>
            else if \<not> truthy query then \<lparr>reply = Sent query_required, calls = []\<rparr>
            else if \<not> truthy customer_id then \<lparr>reply = Sent customer_id_required, calls = []\<rparr>
            else call_and_send w (requestId req)
                   \<lparr>name = ''execute_gaql'',
                    arguments = [(''query'', query), (''customer_id'', customer_id),
                                 (''login_customer_id'', or_null login_customer_id)]\<rparr>))"

text \<open>\<^verbatim>\<open>GET /api/google-ads/gaql-doc\<close>.\<close>

definition get_gaql_doc :: "world \<Rightarrow> proc \<Rightarrow> request \<Rightarrow> outcome" where
  "get_gaql_doc w st req =
     (if mcpClient st = None then \<lparr>reply = Sent not_initialized, calls = []\<rparr>
      else call_and_send w (requestId req) \<lparr>name = ''get_gaql_doc'', arguments = []\<rparr>)"

text \<open>\<^verbatim>\<open>GET /api/google-ads/reporting-view-doc\<close>.\<close>

definition get_reporting_view_doc :: "world \<Rightarrow> proc \<Rightarrow> request \<Rightarrow> outcome" where
  "get_reporting_view_doc w st req =
     (if mcpClient st = None then \<lparr>reply = Sent not_initialized, calls = []\<rparr>
      else
        (let view = field (query req) ''view''
         in call_and_send w (requestId req)
              \<lparr>name = ''get_reporting_view_doc'', arguments = [(''view'', or_null view)]\<rparr>))"

text \<open>
  The earlier version of the handlers, kept in the repository beside \<^verbatim>\<open>src/index.js\<close>:
  the same readiness test, the same validation and the same invocations, without request
  ids and without the logging lines, and with a \<^verbatim>\<open>catch\<close> block that answers
  \<^verbatim>\<open>{ error: error.message }\<close>.
\<close>

definition failed_plain :: "errval \<Rightarrow> reply" where
  "failed_plain error =
     (case read error ''message'' of
        Inl e \<Rightarrow> Unhandled e
      | Inr m \<Rightarrow> Sent (status_json 500 [(''error'', m)]))"

definition call_and_send_plain :: "world \<Rightarrow> toolCall \<Rightarrow> outcome" where
  "call_and_send_plain w toolCall =
     (case callTool w toolCall of
        Inr result \<Rightarrow> \<lparr>reply = Sent (res_json result), calls = [CallTool toolCall]\<rparr>
      | Inl error \<Rightarrow> \<lparr>reply = failed_plain error, calls = [CallTool toolCall]\<rparr>)"

definition get_tools_plain :: "world \<Rightarrow> proc \<Rightarrow> request \<Rightarrow> outcome" where
  "get_tools_plain w st req =
     (if mcpClient st = None then \<lparr>reply = Sent not_initialized, calls = []\<rparr>
      else
        (case listTools w of
           Inr tools \<Rightarrow> \<lparr>reply = Sent (res_json tools), calls = [ListTools]\<rparr>
         | Inl error \<Rightarrow> \<lparr>reply = failed_plain error, calls = [ListTools]\<rparr>))"

definition get_accounts_plain :: "world \<Rightarrow> proc \<Rightarrow> request \<Rightarrow> outcome" where
  "get_accounts_plain w st req =
     (if mcpClient st = None then \<lparr>reply = Sent not_initialized, calls = []\<rparr>
      else call_and_send_plain w \<lparr>name = ''list_accessible_accounts'', arguments = []\<rparr>)"

definition post_execute_gaql_plain :: "world \<Rightarrow> proc \<Rightarrow> request \<Rightarrow> outcome" where
  "post_execute_gaql_plain w st req =
     (if mcpClient st = None then \<lparr>reply = Sent not_initialized, calls = []\<rparr>
      else
        (let query = field (body req) ''query'';
             customer_id = field (body req) ''customer_id'';
             login_customer_id = field (body req) ''login_customer_id''
         in if \<not> truthy query then \<lparr>reply = Sent query_required, calls = []\<rparr>
            else if \<not> truthy customer_id then \<lparr>reply = Sent customer_id_required, calls = []\<rparr>
            else call_and_send_plain w
                   \<lparr>name = ''execute_gaql'',
                    arguments = [(''query'', query), (''customer_id'', customer_id),
                                 (''login_customer_id'', or_null login_customer_id)]\<rparr>))"

definition get_gaql_doc_plain :: "world \<Rightarrow> proc \<Rightarrow> request \<Rightarrow> outcome" where
  "get_gaql_doc_plain w st req =
     (if mcpClient st = None then \<lparr>reply = Sent not_initialized, calls = []\<rparr>
      else call_and_send_plain w \<lparr>name = ''get_gaql_doc'', arguments = []\<rparr>)"

definition get_reporting_view_doc_plain :: "world \<Rightarrow> proc \<Rightarrow> request \<Rightarrow> outcome" where
  "get_reporting_view_doc_plain w st req =
     (if mcpClient st = None then \<lparr>reply = Sent not_initialized, calls = []\<rparr>
      else
        (let view = field (query req) ''view''
         in call_and_send_plain w
              \<lparr>name = ''get_reporting_view_doc'', arguments = [(''view'', or_null view)]\<rparr>))"

text \<open>
  The protected routes: \<^verbatim>\<open>app.get(path, authenticateApiKey, handler)\<close>. The handler
  runs when the middleware calls \<^verbatim>\<open>next()\<close>; otherwise the middleware's response is
  the reply.
\<close>

datatype route =
    GET_tools
  | GET_accounts
  | POST_execute_gaql
  | GET_gaql_doc
  | GET_reporting_view_doc

fun handler :: "route \<Rightarrow> world \<Rightarrow> proc \<Rightarrow> request \<Rightarrow> outcome" where
  "handler GET_tools = get_tools"
| "handler GET_accounts = get_accounts"
| "handler POST_execute_gaql = post_execute_gaql"
| "handler GET_gaql_doc = get_gaql_doc"
| "handler GET_reporting_view_doc = get_reporting_view_doc"

fun handler_plain :: "route \<Rightarrow> world \<Rightarrow> proc \<Rightarrow> request \<Rightarrow> outcome" where
  "handler_plain GET_tools = get_tools_plain"
| "handler_plain GET_accounts = get_accounts_plain"
| "handler_plain POST_execute_gaql = post_execute_gaql_plain"
| "handler_plain GET_gaql_doc = get_gaql_doc_plain"
| "handler_plain GET_reporting_view_doc = get_reporting_view_doc_plain"

definition protected :: "route \<Rightarrow> world \<Rightarrow> config \<Rightarrow> proc \<Rightarrow> request \<Rightarrow> string list \<times> outcome" where
  "protected r w cfg st req =
     (case authenticateApiKey w cfg req of
        (warnings, Next) \<Rightarrow> (warnings, handler r w st req)
      | (warnings, Respond res) \<Rightarrow> (warnings, \<lparr>reply = Sent res, calls = []\<rparr>))"

section \<open>The shutdown coordinator\<close>

text \<open>
  \<^verbatim>\<open>gracefulShutdown(signal)\<close>, the handler of \<^verbatim>\<open>SIGTERM\<close> and \<^verbatim>\<open>SIGINT\<close>. With a
  server it calls \<^verbatim>\<open>server.close(callback)\<close>, which stops the listener and registers
  the callback for the server's \<^verbatim>\<open>close\<close> event, and arms a timer of ten seconds.
\<close>

definition gracefulShutdown :: "proc \<Rightarrow> proc" where
  "gracefulShutdown st =
     (case server st of
        Some s \<Rightarrow>
          emit [ServerClose, SetTimeout 10000]
            (st\<lparr>server := Some (s\<lparr>listening := False, onClose := Suc (onClose s)\<rparr>),
                timers := Suc (timers st)\<rparr>)
      | None \<Rightarrow> process_exit 0 st)"

text \<open>
  The callback given to \<^verbatim>\<open>server.close\<close>, in its two parts. It runs without
  interruption up to \<^verbatim>\<open>await mcpClient.close()\<close>: with a client it calls \<^verbatim>\<open>close\<close>
  and is suspended (\<open>True\<close>), without one it goes on to \<^verbatim>\<open>process.exit(0)\<close>. It is
  resumed when \<^verbatim>\<open>close\<close> has settled: the \<^verbatim>\<open>try\<close> has either passed or its
  \<^verbatim>\<open>catch\<close> has logged the error, and \<^verbatim>\<open>process.exit(0)\<close> follows.
\<close>

definition closeCallback_begin :: "proc \<Rightarrow> proc \<times> bool" where
  "closeCallback_begin st =
     (case mcpClient st of
        Some c \<Rightarrow> (emit [ClientClose] (st\<lparr>mcpClient := Some Closed\<rparr>), True)
      | None \<Rightarrow> (process_exit 0 st, False))"

definition closeCallback_resume :: "world \<Rightarrow> proc \<Rightarrow> proc" where
  "closeCallback_resume w st =
     (case close w of
        None \<Rightarrow> process_exit 0 st
      | Some error \<Rightarrow> process_exit 0 st)"

text \<open>
  The server's \<^verbatim>\<open>close\<close> event, emitted once the listener is stopped and the last
  connection has ended (and again after a later \<^verbatim>\<open>server.close\<close>). Node calls the
  registered callbacks one after the other; each runs up to its \<^verbatim>\<open>await\<close> before the
  next one starts. \<open>run_listeners\<close> returns how many callbacks are suspended; they
  stay suspended, with the process alive and its timers armed, until \<^verbatim>\<open>close\<close>
  settles.
\<close>

fun run_listeners :: "nat \<Rightarrow> proc \<Rightarrow> proc \<times> nat" where
  "run_listeners 0 st = (st, 0)"
| "run_listeners (Suc n) st =
     (if exited st \<noteq> None then (st, 0)
      else
        (case closeCallback_begin st of
           (st', True) \<Rightarrow> (case run_listeners n st' of (st'', k) \<Rightarrow> (st'', Suc k))
         | (st', False) \<Rightarrow> (st', 0)))"

definition server_closed :: "proc \<Rightarrow> proc" where
  "server_closed st =
     (case server st of
        None \<Rightarrow> st
      | Some s \<Rightarrow>
          if listening s then st
          else
            (case run_listeners (onClose s)
                    (st\<lparr>server := Some (s\<lparr>onClose := 0, drained := True\<rparr>)\<rparr>) of
               (st', k) \<Rightarrow> st'\<lparr>closing := closing st' + k\<rparr>))"

text \<open>
  \<^verbatim>\<open>mcpClient.close()\<close> settles: the first of the suspended callbacks is resumed and
  ends the process.
\<close>

definition close_settled :: "world \<Rightarrow> proc \<Rightarrow> proc" where
  "close_settled w st = (if 0 < closing st then closeCallback_resume w st else st)"

text \<open>The timer armed by \<^verbatim>\<open>gracefulShutdown\<close>, when it fires.\<close>

definition force_exit :: "proc \<Rightarrow> proc" where
  "force_exit st = (if 0 < timers st then process_exit 1 st else st)"

text \<open>
  What can happen to the running process: a termination signal, the server's
  \<^verbatim>\<open>close\<close> event, the settling of \<^verbatim>\<open>close\<close>, the timer, a request to a protected
  route. A process that has exited does nothing more. A request is served while the
  process lives and its server has not emitted \<^verbatim>\<open>close\<close>; serving it adds the
  middleware's warnings and the handler's upstream calls to the trace, and a handler that
  ends with an exception is an unhandled rejection, which ends the process.
\<close>

datatype event = Signal | Drained | Settled | Timeout | Request route request

fun upcall_effect :: "upcall \<Rightarrow> effect" where
  "upcall_effect ListTools = ClientListTools"
| "upcall_effect (CallTool t) = ClientCallTool t"

definition serving :: "proc \<Rightarrow> bool" where
  "serving st =
     (exited st = None \<and> (case server st of None \<Rightarrow> False | Some s \<Rightarrow> \<not> drained s))"

definition serve :: "route \<Rightarrow> world \<Rightarrow> config \<Rightarrow> proc \<Rightarrow> request \<Rightarrow> proc" where
  "serve r w cfg st req =
     (case protected r w cfg st req of
        (warnings, out) \<Rightarrow>
          (let st' = emit (map ConsoleWarn warnings @ map upcall_effect (calls out)) st
           in case reply out of
                Sent res \<Rightarrow> st'
              | Unhandled e \<Rightarrow> uncaught e st'))"

definition step :: "world \<Rightarrow> config \<Rightarrow> proc \<Rightarrow> event \<Rightarrow> proc" where
  "step w cfg st ev =
     (if exited st \<noteq> None then st
      else
        (case ev of
           Signal \<Rightarrow> gracefulShutdown st
         | Drained \<Rightarrow> server_closed st
         | Settled \<Rightarrow> close_settled w st
         | Timeout \<Rightarrow> force_exit st
         | Request r req \<Rightarrow> (if serving st then serve r w cfg st req else st)))"

definition run :: "world \<Rightarrow> config \<Rightarrow> event list \<Rightarrow> proc" where
  "run w cfg evs = foldl (step w cfg) (start w cfg) evs"

section \<open>Sample collaborators and requests\<close>

text \<open>
  An upstream that accepts the connection and answers every call with the given payload;
  one that accepts the connection and then rejects every call, as the SDK does on a client
  that is not connected; and one whose \<^verbatim>\<open>connect\<close> is refused as well.
\<close>

definition answering :: "json \<Rightarrow> world" where
  "answering p =
     \<lparr>Buffer_from = node_Buffer_from, new_URL = (\<lambda>u. None), new_SSEClientTransport = None,
      new_Client = None, connect = None, listTools = Inr p, callTool = (\<lambda>t. Inr p),
      close = None\<rparr>"

definition disconnected :: world where
  "disconnected = (answering JNull)
     \<lparr>listTools := Inl (js_error ''Error'' ''Not connected''),
      callTool := (\<lambda>t. Inl (js_error ''Error'' ''Not connected''))\<rparr>"

definition refusing :: world where
  "refusing = disconnected\<lparr>connect := Some (js_error ''Error'' ''SSE error: ECONNREFUSED'')\<rparr>"

definition keyed :: config where
  "keyed = \<lparr>MCP_SERVER_URL = Some ''http://localhost:8000/sse'', API_KEY = Some ''s3cret'',
             NODE_ENV = None\<rparr>"

definition keyless :: config where
  "keyless = keyed\<lparr>API_KEY := None\<rparr>"

definition plain_request :: request where
  "plain_request = \<lparr>headers = Map.empty, body = [], query = [], requestId = ''lx2k9a''\<rparr>"

definition tool_error :: json where
  "tool_error = JObj [(''isError'', JBool True),
                      (''content'', JArr [JObj [(''type'', JStr ''text''),
                                                (''text'', JStr ''query failed'')]])]"

text \<open>
  An error object without a message, whose \<^verbatim>\<open>secret\<close> property is an accessor that
  throws, on a prototype that has a \<^verbatim>\<open>code\<close> of its own.
\<close>

definition guarded_error :: obj where
  "guarded_error =
     Obj [(''code'', Data (Json (JNum 0))), (''secret'', Throws ''denied'')]
         (Some (Obj [(''code'', Data (Json (JNum 7)))] None))"

text \<open>
  A well-formed request to \<^verbatim>\<open>POST /api/google-ads/execute-gaql\<close> with the credential of
  \<open>keyed\<close> in the \<^verbatim>\<open>X-API-Key\<close> header and no \<^verbatim>\<open>login_customer_id\<close>, and the
  invocation the handler builds from it.
\<close>

definition gaql_request :: request where
  "gaql_request =
     \<lparr>headers = [''x-api-key'' \<mapsto> ''s3cret''],
      body = [(''query'', JStr ''SELECT campaign.id FROM campaign''),
              (''customer_id'', JStr ''1234567890'')],
      query = [], requestId = ''lx2k9b''\<rparr>"

definition gaql_call :: toolCall where
  "gaql_call =
     \<lparr>name = ''execute_gaql'',
      arguments = [(''query'', Json (JStr ''SELECT campaign.id FROM campaign'')),
                   (''customer_id'', Json (JStr ''1234567890'')),
                   (''login_customer_id'', Json JNull)]\<rparr>"

section \<open>Properties of the credential verifier\<close>

lemma status_of_envelopes:
  "status authentication_required = 401" "status invalid_api_key = 403"
  by (simp_all add: authentication_required_def invalid_api_key_def status_json_def)

text \<open>
  Node's \<^verbatim>\<open>Buffer.from\<close> gives different strings different bytes: two bytes of one
  character never start like one byte of another.
\<close>

lemma byte_eq:
  assumes "a < 256" "b < 256" "(of_nat a :: 8 word) = of_nat b"
  shows "a = b"
proof -
  have "unat (of_nat a :: 8 word) = unat (of_nat b :: 8 word)"
    using assms(3) by simp
  then show ?thesis
    using assms(1,2) by (simp add: unat_of_nat)
qed

lemma utf8_head:
  assumes "utf8 c @ xs = utf8 d @ ys"
  shows "c = d \<and> xs = ys"
proof -
  define a b where "a = (of_char c :: nat)" and "b = (of_char d :: nat)"
  have small: "a < 256" "b < 256"
    by (simp_all add: a_def b_def)
  have lead: "192 + a div 64 < 256" "192 + b div 64 < 256"
    "128 + a mod 64 < 256" "128 + b mod 64 < 256"
    using small by simp_all
  have same: "a = b \<and> xs = ys"
  proof (cases "a < 128")
    case True
    show ?thesis
    proof (cases "b < 128")
      case b: True
      then have "(of_nat a :: 8 word) = of_nat b" "xs = ys"
        using assms True by (simp_all add: utf8_def Let_def a_def b_def)
      then show ?thesis
        using byte_eq [OF small] by simp
    next
      case b: False
      then have "(of_nat a :: 8 word) = of_nat (192 + b div 64)"
        using assms True by (simp add: utf8_def Let_def a_def b_def)
      then have "a = 192 + b div 64"
        using byte_eq [OF small(1) lead(2)] by simp
      then show ?thesis
        using True by simp
    qed
  next
    case False
    show ?thesis
    proof (cases "b < 128")
      case b: True
      then have "(of_nat (192 + a div 64) :: 8 word) = of_nat b"
        using assms False by (simp add: utf8_def Let_def a_def b_def)
      then have "192 + a div 64 = b"
        using byte_eq [OF lead(1) small(2)] by simp
      then show ?thesis
        using b by simp
    next
      case b: False
      then have eq: "(of_nat (192 + a div 64) :: 8 word) = of_nat (192 + b div 64)"
        "(of_nat (128 + a mod 64) :: 8 word) = of_nat (128 + b mod 64)" "xs = ys"
        using assms False by (simp_all add: utf8_def Let_def a_def b_def)
      have "192 + a div 64 = 192 + b div 64" "128 + a mod 64 = 128 + b mod 64"
        using byte_eq [OF lead(1) lead(2) eq(1)] byte_eq [OF lead(3) lead(4) eq(2)] by simp_all
      then have "a div 64 = b div 64" "a mod 64 = b mod 64"
        by simp_all
      then have "a = b"
        by (metis div_mult_mod_eq)
      then show ?thesis
        using eq(3) by simp
    qed
  qed
  then show ?thesis
    by (simp add: a_def b_def)
qed

lemma utf8_nonempty: "utf8 c \<noteq> []"
  by (simp add: utf8_def Let_def)

lemma node_Buffer_from_inj:
  "node_Buffer_from s = node_Buffer_from t \<Longrightarrow> s = t"
proof (induction s arbitrary: t)
  case Nil
  then show ?case
    by (cases t) (simp_all add: node_Buffer_from_def utf8_nonempty)
next
  case (Cons c s)
  show ?case
  proof (cases t)
    case Nil
    then show ?thesis
      using Cons.prems by (simp add: node_Buffer_from_def utf8_nonempty)
  next
    case (Cons d t')
    then have "utf8 c @ concat (map utf8 s) = utf8 d @ concat (map utf8 t')"
      using Cons.prems by (simp add: node_Buffer_from_def)
    then have "c = d" "concat (map utf8 s) = concat (map utf8 t')"
      using utf8_head by blast+
    then show ?thesis
      using Cons.IH [of t'] Cons by (simp add: node_Buffer_from_def)
  qed
qed

text \<open>
  Claim C1. With a credential configured, a request that presents no key (neither header,
  or only empty values) is answered 401; a request that presents a key is answered 403 with
  the one invalid-key envelope unless both keys turn into the same bytes, whatever makes
  them differ: their lengths, their contents, or an exception from \<^verbatim>\<open>Buffer.from\<close> or
  \<^verbatim>\<open>timingSafeEqual\<close>; and a key with the same bytes as the credential lets the
  request through to the handler. With Node's own \<^verbatim>\<open>Buffer.from\<close> the bytes are the
  same exactly when the presented key is the credential.
\<close>

theorem authenticateApiKey_outcomes:
  assumes cred: "API_KEY cfg = Some key" "key \<noteq> []"
  shows "(headers req ''x-api-key'' = None \<and> headers req ''authorization'' = None
            \<longrightarrow> authenticateApiKey w cfg req = ([], Respond authentication_required))
       \<and> (unset (apiKey req)
            \<longrightarrow> authenticateApiKey w cfg req = ([], Respond authentication_required))
       \<and> (\<forall>k. apiKey req = Some k \<and> k \<noteq> [] \<and>
              \<not> (\<exists>b. Buffer_from w k = Inr b \<and> Buffer_from w key = Inr b)
            \<longrightarrow> authenticateApiKey w cfg req = ([], Respond invalid_api_key))
       \<and> (\<forall>k b. apiKey req = Some k \<and> k \<noteq> [] \<and>
              Buffer_from w k = Inr b \<and> Buffer_from w key = Inr b
            \<longrightarrow> authenticateApiKey w cfg req = ([], Next))
       \<and> (\<forall>k. Buffer_from w = node_Buffer_from \<and> apiKey req = Some k \<and> k \<noteq> []
            \<longrightarrow> authenticateApiKey w cfg req
                  = ([], if k = key then Next else Respond invalid_api_key))
       \<and> status authentication_required = 401 \<and> status invalid_api_key = 403"
proof -
  have configured: "\<not> unset (API_KEY cfg)"
    using cred by (simp add: unset_def)
  have absent: "authenticateApiKey w cfg req = ([], Respond authentication_required)"
    if "unset (apiKey req)"
    using that configured by (simp add: authenticateApiKey_def)
  have none: "unset (apiKey req)"
    if "headers req ''x-api-key'' = None \<and> headers req ''authorization'' = None"
    using that by (simp add: apiKey_def unset_def)
  have wrong: "authenticateApiKey w cfg req = ([], Respond invalid_api_key)"
    if "apiKey req = Some k" "k \<noteq> []"
       "\<not> (\<exists>b. Buffer_from w k = Inr b \<and> Buffer_from w key = Inr b)" for k
    using that configured cred
    by (auto simp: authenticateApiKey_def unset_def and_then_def timingSafeEqual_def
             split: sum.splits)
  have right: "authenticateApiKey w cfg req = ([], Next)"
    if "apiKey req = Some k" "k \<noteq> []" "Buffer_from w k = Inr b" "Buffer_from w key = Inr b"
    for k b
    using that configured cred
    by (simp add: authenticateApiKey_def unset_def and_then_def timingSafeEqual_def)
  have node: "authenticateApiKey w cfg req
      = ([], if k = key then Next else Respond invalid_api_key)"
    if "Buffer_from w = node_Buffer_from" "apiKey req = Some k" "k \<noteq> []" for k
  proof (cases "k = key")
    case True
    have "Buffer_from w k = Inr (concat (map utf8 k))"
      using that(1) by (simp add: node_Buffer_from_def)
    then show ?thesis
      using right [OF that(2,3)] True by simp
  next
    case False
    then have "node_Buffer_from k \<noteq> node_Buffer_from key"
      using node_Buffer_from_inj by blast
    then have "\<not> (\<exists>b. Buffer_from w k = Inr b \<and> Buffer_from w key = Inr b)"
      using that(1) by auto
    then show ?thesis
      using wrong [OF that(2,3)] False by simp
  qed
  show ?thesis
    using absent none wrong right node status_of_envelopes by blast
qed

theorem authenticateApiKey_outcomes_witness:
  "API_KEY keyed = Some ''s3cret''
   \<and> apiKey (plain_request\<lparr>headers := [''authorization'' \<mapsto> ''Bearer s3cret'']\<rparr>) = Some ''s3cret''
   \<and> authenticateApiKey (answering JNull) keyed
        (plain_request\<lparr>headers := [''authorization'' \<mapsto> ''Bearer s3cret'']\<rparr>) = ([], Next)
   \<and> apiKey (plain_request\<lparr>headers := [''x-api-key'' \<mapsto> ''s3cre7'']\<rparr>) = Some ''s3cre7''
   \<and> authenticateApiKey (answering JNull) keyed
        (plain_request\<lparr>headers := [''x-api-key'' \<mapsto> ''s3cre7'']\<rparr>)
      = ([], Respond invalid_api_key)
   \<and> authenticateApiKey (answering JNull) keyed plain_request
      = ([], Respond authentication_required)"
proof -
  have key: "API_KEY keyed = Some ''s3cret''" "''s3cret'' \<noteq> []"
    by (simp_all add: keyed_def)
  have bearer: "apiKey (plain_request\<lparr>headers := [''authorization'' \<mapsto> ''Bearer s3cret'']\<rparr>)
                  = Some ''s3cret''"
    by (simp add: apiKey_def plain_request_def unset_def)
  have header: "apiKey (plain_request\<lparr>headers := [''x-api-key'' \<mapsto> ''s3cre7'']\<rparr>)
                  = Some ''s3cre7''"
    by (simp add: apiKey_def plain_request_def unset_def)
  have none: "headers plain_request ''x-api-key'' = None
                \<and> headers plain_request ''authorization'' = None"
    by (simp add: plain_request_def)
  have same: "Buffer_from (answering JNull) ''s3cret'' = Inr [115, 51, 99, 114, 101, 116]"
    by (simp add: answering_def node_Buffer_from_def utf8_def)
  have other: "Buffer_from (answering JNull) ''s3cre7'' = Inr [115, 51, 99, 114, 101, 55]"
    by (simp add: answering_def node_Buffer_from_def utf8_def)
  show ?thesis
    using key bearer header none same other
      authenticateApiKey_outcomes [OF key,
        of "plain_request\<lparr>headers := [''authorization'' \<mapsto> ''Bearer s3cret'']\<rparr>"
           "answering JNull"]
      authenticateApiKey_outcomes [OF key,
        of "plain_request\<lparr>headers := [''x-api-key'' \<mapsto> ''s3cre7'']\<rparr>" "answering JNull"]
      authenticateApiKey_outcomes [OF key, of plain_request "answering JNull"]
    by simp
qed

section \<open>Properties of the session lifecycle\<close>

text \<open>
  What \<^verbatim>\<open>initMCPClient\<close> does to the process: it adds its own calls to the trace,
  leaves the server, the exit code and the timers alone, fails or succeeds whatever the
  process was before, and on success leaves a connected client behind.
\<close>

lemma initMCPClient_trace:
  "\<exists>es. trace (fst (initMCPClient w cfg st)) = trace st @ InitMCPClient # es
        \<and> set es \<subseteq> {ClientConnect, ClientListTools}"
  by (auto simp: initMCPClient_def emit_def Let_def split: option.splits sum.splits)

lemma initMCPClient_frame:
  "server (fst (initMCPClient w cfg st)) = server st"
  "exited (fst (initMCPClient w cfg st)) = exited st"
  "timers (fst (initMCPClient w cfg st)) = timers st"
  by (auto simp: initMCPClient_def emit_def Let_def split: option.splits sum.splits)

lemma initMCPClient_error:
  "snd (initMCPClient w cfg st) = snd (initMCPClient w cfg initial)"
  by (auto simp: initMCPClient_def emit_def Let_def split: option.splits sum.splits)

lemma initMCPClient_success:
  assumes "snd (initMCPClient w cfg st) = None"
  shows "mcpClient (fst (initMCPClient w cfg st)) = Some Connected"
    and "trace (fst (initMCPClient w cfg st))
           = trace st @ [InitMCPClient, ClientConnect, ClientListTools]"
    and "connect w = None"
  using assms
  by (cases "unset (MCP_SERVER_URL cfg)"; cases "new_URL w (the (MCP_SERVER_URL cfg))";
      cases "new_SSEClientTransport w"; cases "new_Client w"; cases "connect w";
      cases "listTools w";
      simp add: initMCPClient_def emit_def Let_def split: option.splits sum.splits)+

text \<open>The callbacks of the server's \<^verbatim>\<open>close\<close> event, with and without a client.\<close>

lemma run_listeners_client:
  "mcpClient st \<noteq> None \<Longrightarrow> exited st = None \<Longrightarrow>
   run_listeners n st =
     (if n = 0 then st
      else st\<lparr>mcpClient := Some Closed, trace := trace st @ replicate n ClientClose\<rparr>, n)"
proof (induction n arbitrary: st)
  case 0
  then show ?case by simp
next
  case (Suc n)
  let ?st' = "emit [ClientClose] (st\<lparr>mcpClient := Some Closed\<rparr>)"
  have first: "closeCallback_begin st = (?st', True)"
    using Suc.prems(1) by (auto simp: closeCallback_begin_def)
  have "mcpClient ?st' \<noteq> None" "exited ?st' = None"
    using Suc.prems(2) by (simp_all add: emit_def)
  then have "run_listeners n ?st' =
      (if n = 0 then ?st'
       else ?st'\<lparr>mcpClient := Some Closed, trace := trace ?st' @ replicate n ClientClose\<rparr>, n)"
    by (rule Suc.IH)
  then show ?case
    using first Suc.prems(2) by (simp add: emit_def replicate_append_same)
qed

lemma run_listeners_no_client:
  "mcpClient st = None \<Longrightarrow> exited st = None \<Longrightarrow>
   run_listeners (Suc n) st = (process_exit 0 st, 0)"
  by (simp add: closeCallback_begin_def)

lemma closeCallback_resume_exits: "closeCallback_resume w st = process_exit 0 st"
  by (simp add: closeCallback_resume_def split: option.splits)

lemma server_closed_client_eq:
  assumes "server st = Some s" "\<not> listening s" "mcpClient st \<noteq> None" "exited st = None"
  shows "server_closed st =
     (if onClose s = 0 then st\<lparr>server := Some (s\<lparr>onClose := 0, drained := True\<rparr>)\<rparr>
      else st\<lparr>server := Some (s\<lparr>onClose := 0, drained := True\<rparr>), mcpClient := Some Closed,
              trace := trace st @ replicate (onClose s) ClientClose,
              closing := closing st + onClose s\<rparr>)"
proof -
  let ?st = "st\<lparr>server := Some (s\<lparr>onClose := 0, drained := True\<rparr>)\<rparr>"
  have "mcpClient ?st \<noteq> None" "exited ?st = None"
    using assms by simp_all
  then have ran: "run_listeners (onClose s) ?st =
      (if onClose s = 0 then ?st
       else ?st\<lparr>mcpClient := Some Closed, trace := trace ?st @ replicate (onClose s) ClientClose\<rparr>,
       onClose s)"
    by (rule run_listeners_client)
  show ?thesis
    unfolding server_closed_def using assms(1,2)
    by (simp add: ran)
qed

lemma server_closed_no_client_eq:
  assumes "server st = Some s" "\<not> listening s" "mcpClient st = None" "exited st = None"
  shows "server_closed st =
     (if onClose s = 0 then st\<lparr>server := Some (s\<lparr>onClose := 0, drained := True\<rparr>)\<rparr>
      else process_exit 0 (st\<lparr>server := Some (s\<lparr>onClose := 0, drained := True\<rparr>)\<rparr>))"
proof (cases "onClose s")
  case 0
  then show ?thesis
    unfolding server_closed_def using assms(1,2) by simp
next
  case (Suc n)
  let ?st = "st\<lparr>server := Some (s\<lparr>onClose := 0, drained := True\<rparr>)\<rparr>"
  have "mcpClient ?st = None" "exited ?st = None"
    using assms by simp_all
  then have "run_listeners (Suc n) ?st = (process_exit 0 ?st, 0)"
    by (rule run_listeners_no_client)
  then show ?thesis
    unfolding server_closed_def using assms(1,2) Suc by simp
qed

lemma server_closed_idle:
  "server st = None \<Longrightarrow> server_closed st = st"
  "server st = Some s \<Longrightarrow> listening s \<Longrightarrow> server_closed st = st"
  by (simp_all add: server_closed_def)

text \<open>A process that has exited ignores every event.\<close>

lemma step_exited: "exited st \<noteq> None \<Longrightarrow> step w cfg st ev = st"
  by (simp add: step_def)

lemma steps_exited: "exited st \<noteq> None \<Longrightarrow> foldl (step w cfg) st evs = st"
  by (induction evs) (simp_all add: step_exited)

text \<open>The top level of the module, by the outcome of \<^verbatim>\<open>initMCPClient\<close>.\<close>

lemma start_eq:
  "start w cfg =
     (if unset (MCP_SERVER_URL cfg) \<or> (unset (API_KEY cfg) \<and> NODE_ENV cfg = Some ''production'')
      then process_exit 1 initial
      else if snd (initMCPClient w cfg initial) = None
      then emit [AppListen]
             ((fst (initMCPClient w cfg (warned cfg)))\<lparr>server := Some \<lparr>listening = True, onClose = 0, drained = False\<rparr>\<rparr>)
      else process_exit 1 (fst (initMCPClient w cfg (warned cfg))))"
proof -
  obtain st r where init: "initMCPClient w cfg (warned cfg) = (st, r)"
    by (cases "initMCPClient w cfg (warned cfg)")
  have r: "snd (initMCPClient w cfg initial) = r"
    using initMCPClient_error [of w cfg "warned cfg"] init by simp
  show ?thesis
    unfolding start_def
    using init r
    by (cases r) (simp_all add: process_exit_def uncaught_def split: option.splits)
qed

lemma initial_fields:
  "server initial = None" "exited initial = None" "mcpClient initial = None"
  "trace initial = []" "timers initial = 0" "closing initial = 0"
  by (simp_all add: initial_def)

lemma unset_url_fails:
  "unset (MCP_SERVER_URL cfg) \<Longrightarrow> snd (initMCPClient w cfg st) \<noteq> None"
  by (simp add: initMCPClient_def Let_def)

lemma warned_trace:
  "InitMCPClient \<notin> set (trace (warned cfg))" "AppListen \<notin> set (trace (warned cfg))"
  "server (warned cfg) = None" "exited (warned cfg) = None" "mcpClient (warned cfg) = None"
  by (simp_all add: warned_def initial_fields emit_def)

lemma start_failed:
  assumes "snd (initMCPClient w cfg initial) \<noteq> None"
  shows "exited (start w cfg) = Some 1" "server (start w cfg) = None"
    "AppListen \<notin> set (trace (start w cfg))"
    "count_list (trace (start w cfg)) InitMCPClient \<le> 1"
proof -
  obtain es where es: "trace (fst (initMCPClient w cfg (warned cfg)))
      = trace (warned cfg) @ InitMCPClient # es" "set es \<subseteq> {ClientConnect, ClientListTools}"
    using initMCPClient_trace by blast
  have none: "count_list es InitMCPClient = 0" "AppListen \<notin> set es"
    using es(2) by (auto simp: count_list_0_iff)
  obtain e where assms: "snd (initMCPClient w cfg initial) = Some e"
    using assms by blast
  show "exited (start w cfg) = Some 1" "server (start w cfg) = None"
    using assms
    by (simp_all add: start_eq process_exit_def initial_fields initMCPClient_frame warned_trace)
  show "AppListen \<notin> set (trace (start w cfg))"
    using assms es(1) none(2)
    by (simp add: start_eq process_exit_def initial_fields warned_trace)
  show "count_list (trace (start w cfg)) InitMCPClient \<le> 1"
    using assms es(1) none(1) warned_trace(1) [of cfg]
    by (simp add: start_eq process_exit_def initial_fields count_list_0_iff)
qed

lemma start_listening:
  assumes "server (start w cfg) \<noteq> None"
  shows "snd (initMCPClient w cfg initial) = None"
    "mcpClient (start w cfg) = Some Connected"
    "trace (start w cfg) = trace (warned cfg) @ [InitMCPClient, ClientConnect, ClientListTools, AppListen]"
    "exited (start w cfg) = None"
    "server (start w cfg) = Some \<lparr>listening = True, onClose = 0, drained = False\<rparr>"
proof -
  show ok: "snd (initMCPClient w cfg initial) = None"
    using assms start_failed(2) [of w cfg] by (cases "snd (initMCPClient w cfg initial)") simp_all
  then have ok': "snd (initMCPClient w cfg (warned cfg)) = None"
    using initMCPClient_error [of w cfg "warned cfg"] by simp
  have good: "\<not> (unset (MCP_SERVER_URL cfg) \<or> (unset (API_KEY cfg) \<and> NODE_ENV cfg = Some ''production''))"
    using assms by (auto simp: start_eq process_exit_def initial_fields)
  have eq: "start w cfg = emit [AppListen]
             ((fst (initMCPClient w cfg (warned cfg)))\<lparr>server := Some \<lparr>listening = True, onClose = 0, drained = False\<rparr>\<rparr>)"
    using good ok by (auto simp: start_eq)
  show "mcpClient (start w cfg) = Some Connected"
    using initMCPClient_success(1) [OF ok'] by (simp add: eq emit_def)
  show "trace (start w cfg) = trace (warned cfg) @ [InitMCPClient, ClientConnect, ClientListTools, AppListen]"
    using initMCPClient_success(2) [OF ok'] by (simp add: eq emit_def)
  show "exited (start w cfg) = None"
    by (simp add: eq emit_def initMCPClient_frame warned_trace)
  show "server (start w cfg) = Some \<lparr>listening = True, onClose = 0, drained = False\<rparr>"
    by (simp add: eq emit_def)
qed

lemma start_succeeds:
  assumes "\<not> unset (MCP_SERVER_URL cfg)" "\<not> (unset (API_KEY cfg) \<and> NODE_ENV cfg = Some ''production'')"
    "snd (initMCPClient w cfg initial) = None"
  shows "server (start w cfg) = Some \<lparr>listening = True, onClose = 0, drained = False\<rparr>"
  using assms by (auto simp: start_eq emit_def)

text \<open>No event after the start calls \<^verbatim>\<open>initMCPClient\<close> or \<^verbatim>\<open>app.listen\<close> again.\<close>

lemma upcall_effect_not_startup:
  "InitMCPClient \<notin> upcall_effect ` X" "AppListen \<notin> upcall_effect ` X"
  "ClientClose \<notin> upcall_effect ` X"
proof -
  have "upcall_effect u \<noteq> InitMCPClient \<and> upcall_effect u \<noteq> AppListen
        \<and> upcall_effect u \<noteq> ClientClose" for u
    by (cases u) simp_all
  then show "InitMCPClient \<notin> upcall_effect ` X" "AppListen \<notin> upcall_effect ` X"
    "ClientClose \<notin> upcall_effect ` X"
    by (metis imageE)+
qed

lemma warnings_of_verifier:
  "fst (authenticateApiKey w cfg req) = [] \<or> fst (authenticateApiKey w cfg req) = [request_warning]"
  by (simp add: authenticateApiKey_def and_then_def split: sum.splits)

lemma warnings_of_route:
  "fst (protected r w cfg st req) = [] \<or> fst (protected r w cfg st req) = [request_warning]"
  using warnings_of_verifier [of w cfg req]
  by (cases "authenticateApiKey w cfg req"; cases "snd (authenticateApiKey w cfg req)")
     (auto simp: protected_def)

lemma warnings_differ: "startup_warning \<noteq> request_warning"
  by (simp add: startup_warning_def request_warning_def)

lemma serve_adds:
  "\<exists>es. trace (serve r w cfg st req) = trace st @ es
        \<and> InitMCPClient \<notin> set es \<and> AppListen \<notin> set es \<and> ClientClose \<notin> set es
        \<and> ConsoleWarn startup_warning \<notin> set es"
proof -
  obtain ws out where route: "protected r w cfg st req = (ws, out)"
    by (cases "protected r w cfg st req")
  then have "ws = [] \<or> ws = [request_warning]"
    using warnings_of_route [of r w cfg st req] by simp
  then have "ConsoleWarn startup_warning \<notin> set (map ConsoleWarn ws)"
    using warnings_differ by auto
  moreover have "ConsoleWarn startup_warning \<notin> upcall_effect ` X" for X
  proof -
    have "upcall_effect u \<noteq> ConsoleWarn startup_warning" for u
      by (cases u) simp_all
    then show ?thesis by (metis imageE)
  qed
  ultimately show ?thesis
    using route
    by (cases "reply out")
       (auto simp: serve_def emit_def uncaught_def Let_def upcall_effect_not_startup)
qed

lemma serve_frame:
  "server (serve r w cfg st req) = server st"
  "mcpClient (serve r w cfg st req) = mcpClient st"
proof -
  obtain ws out where route: "protected r w cfg st req = (ws, out)"
    by (cases "protected r w cfg st req")
  show "server (serve r w cfg st req) = server st"
    using route by (cases "reply out") (simp_all add: serve_def emit_def uncaught_def Let_def)
  show "mcpClient (serve r w cfg st req) = mcpClient st"
    using route by (cases "reply out") (simp_all add: serve_def emit_def uncaught_def Let_def)
qed

lemma gracefulShutdown_adds:
  "\<exists>es. trace (gracefulShutdown st) = trace st @ es
        \<and> InitMCPClient \<notin> set es \<and> AppListen \<notin> set es \<and> ClientClose \<notin> set es
        \<and> ConsoleWarn startup_warning \<notin> set es"
  by (cases "server st") (simp_all add: gracefulShutdown_def emit_def process_exit_def)

lemma server_closed_adds:
  assumes "exited st = None"
  shows "\<exists>es. trace (server_closed st) = trace st @ es
        \<and> InitMCPClient \<notin> set es \<and> AppListen \<notin> set es
        \<and> ConsoleWarn startup_warning \<notin> set es"
proof (cases "server st")
  case None
  then show ?thesis by (simp add: server_closed_idle)
next
  case (Some s)
  show ?thesis
  proof (cases "listening s")
    case True
    then show ?thesis using Some by (simp add: server_closed_idle)
  next
    case False
    show ?thesis
    proof (cases "mcpClient st")
      case None
      then show ?thesis
        using Some False assms
        by (simp add: server_closed_no_client_eq process_exit_def)
    next
      case (Some c)
      then have "mcpClient st \<noteq> None" by simp
      then show ?thesis
        using \<open>server st = Some s\<close> False assms
        by (simp add: server_closed_client_eq)
    qed
  qed
qed

lemma close_settled_frame:
  "trace (close_settled w st) = trace st" "server (close_settled w st) = server st"
  "mcpClient (close_settled w st) = mcpClient st"
  by (simp_all add: close_settled_def closeCallback_resume_exits process_exit_def)

lemma step_adds:
  "\<exists>es. trace (step w cfg st ev) = trace st @ es
        \<and> InitMCPClient \<notin> set es \<and> AppListen \<notin> set es
        \<and> ConsoleWarn startup_warning \<notin> set es"
proof (cases "exited st = None")
  case False
  then show ?thesis by (simp add: step_def)
next
  case True
  show ?thesis
  proof (cases ev)
    case Signal
    then show ?thesis
      using True gracefulShutdown_adds [of st] by (auto simp: step_def)
  next
    case Drained
    then show ?thesis
      using True server_closed_adds [OF True] by (simp add: step_def)
  next
    case Settled
    then show ?thesis
      using True by (simp add: step_def close_settled_frame)
  next
    case Timeout
    then show ?thesis
      using True by (simp add: step_def force_exit_def process_exit_def)
  next
    case (Request r req)
    then show ?thesis
      using True serve_adds [of r w cfg st req] by (auto simp: step_def)
  qed
qed

lemma steps_add:
  "\<exists>es. trace (foldl (step w cfg) st evs) = trace st @ es
        \<and> InitMCPClient \<notin> set es \<and> AppListen \<notin> set es
        \<and> ConsoleWarn startup_warning \<notin> set es"
proof (induction evs arbitrary: st)
  case Nil
  then show ?case by simp
next
  case (Cons ev evs)
  obtain es where es: "trace (step w cfg st ev) = trace st @ es"
      "InitMCPClient \<notin> set es" "AppListen \<notin> set es"
      "ConsoleWarn startup_warning \<notin> set es"
    using step_adds by blast
  obtain es' where es': "trace (foldl (step w cfg) (step w cfg st ev) evs)
        = trace (step w cfg st ev) @ es'"
      "InitMCPClient \<notin> set es'" "AppListen \<notin> set es'"
      "ConsoleWarn startup_warning \<notin> set es'"
    using Cons.IH by blast
  have "trace (foldl (step w cfg) st (ev # evs)) = trace st @ (es @ es')"
    using es(1) es'(1) by simp
  moreover have "InitMCPClient \<notin> set (es @ es')" "AppListen \<notin> set (es @ es')"
      "ConsoleWarn startup_warning \<notin> set (es @ es')"
    using es es' by simp_all
  ultimately show ?case by blast
qed

text \<open>
  What every event keeps: while the process serves requests, the client is connected and
  \<^verbatim>\<open>close\<close> has not been called on it. The callbacks that call \<^verbatim>\<open>close\<close> run on the
  server's \<^verbatim>\<open>close\<close> event, after which nothing is served.
\<close>

lemma serving_iff:
  "serving st = (exited st = None \<and> (\<exists>s. server st = Some s \<and> \<not> drained s))"
  by (cases "server st") (simp_all add: serving_def)

lemma server_closed_not_serving:
  assumes "server st = Some s" "\<not> listening s" "exited st = None"
  shows "\<not> serving (server_closed st)"
proof (cases "mcpClient st")
  case None
  then show ?thesis
    using assms by (simp add: server_closed_no_client_eq serving_iff process_exit_def)
next
  case (Some c)
  then have "mcpClient st \<noteq> None" by simp
  then show ?thesis
    using assms by (simp add: server_closed_client_eq serving_iff)
qed

lemma step_keeps:
  assumes inv: "serving st \<longrightarrow> mcpClient st = Some Connected \<and> ClientClose \<notin> set (trace st)"
  shows "serving (step w cfg st ev)
      \<longrightarrow> mcpClient (step w cfg st ev) = Some Connected
          \<and> ClientClose \<notin> set (trace (step w cfg st ev))"
proof (cases "exited st = None")
  case False
  then have "step w cfg st ev = st"
    by (rule step_exited)
  then show ?thesis
    using inv by simp
next
  case True
  show ?thesis
  proof (cases ev)
    case Signal
    then show ?thesis
      using True inv
      by (cases "server st")
         (auto simp: step_def serving_iff gracefulShutdown_def emit_def process_exit_def)
  next
    case Drained
    show ?thesis
    proof (cases "server st")
      case None
      then show ?thesis
        using True inv Drained by (simp add: step_def server_closed_idle)
    next
      case (Some s)
      show ?thesis
      proof (cases "listening s")
        case True
        then show ?thesis
          using \<open>exited st = None\<close> inv Drained Some
          by (simp add: step_def server_closed_idle)
      next
        case False
        then have "\<not> serving (server_closed st)"
          using Some True by (intro server_closed_not_serving)
        then show ?thesis
          using True Drained by (simp add: step_def)
      qed
    qed
  next
    case Settled
    then show ?thesis
      using True inv
      by (auto simp: step_def serving_iff close_settled_def closeCallback_resume_exits
            process_exit_def)
  next
    case Timeout
    then show ?thesis
      using True inv
      by (auto simp: step_def serving_iff force_exit_def process_exit_def)
  next
    case (Request r req)
    obtain es where es: "trace (serve r w cfg st req) = trace st @ es" "ClientClose \<notin> set es"
      using serve_adds by blast
    show ?thesis
    proof (cases "serving st")
      case False
      then show ?thesis
        using True Request by (simp add: step_def)
    next
      case serves: True
      then have "mcpClient st = Some Connected" "ClientClose \<notin> set (trace st)"
        using inv by simp_all
      then have "mcpClient (serve r w cfg st req) = Some Connected"
          "ClientClose \<notin> set (trace (serve r w cfg st req))"
        using es by (simp_all add: serve_frame)
      then show ?thesis
        using True serves Request by (simp add: step_def)
    qed
  qed
qed

lemma steps_keep:
  assumes "serving st \<longrightarrow> mcpClient st = Some Connected \<and> ClientClose \<notin> set (trace st)"
  shows "serving (foldl (step w cfg) st evs)
      \<longrightarrow> mcpClient (foldl (step w cfg) st evs) = Some Connected
          \<and> ClientClose \<notin> set (trace (foldl (step w cfg) st evs))"
  using assms
proof (induction evs arbitrary: st)
  case Nil
  then show ?case by simp
next
  case (Cons ev evs)
  have "serving (step w cfg st ev)
      \<longrightarrow> mcpClient (step w cfg st ev) = Some Connected
          \<and> ClientClose \<notin> set (trace (step w cfg st ev))"
    using Cons.prems by (rule step_keeps)
  then show ?case
    using Cons.IH [of "step w cfg st ev"] by simp
qed

lemma start_keeps:
  "serving (start w cfg)
     \<longrightarrow> mcpClient (start w cfg) = Some Connected \<and> ClientClose \<notin> set (trace (start w cfg))"
proof -
  obtain es where es: "trace (fst (initMCPClient w cfg (warned cfg)))
      = trace (warned cfg) @ InitMCPClient # es" "set es \<subseteq> {ClientConnect, ClientListTools}"
    using initMCPClient_trace by blast
  have "ClientClose \<notin> set (trace (warned cfg))"
    by (simp add: warned_def initial_fields emit_def)
  then have "ClientClose \<notin> set (trace (start w cfg))"
    using es by (auto simp: start_eq process_exit_def initial_fields emit_def)
  moreover have "mcpClient (start w cfg) = Some Connected" if "serving (start w cfg)"
  proof -
    have "server (start w cfg) \<noteq> None"
      using that by (auto simp: serving_iff)
    then show ?thesis
      using start_listening(2) [of w cfg] by blast
  qed
  ultimately show ?thesis
    by blast
qed

lemma run_keeps:
  "serving (run w cfg evs)
     \<longrightarrow> mcpClient (run w cfg evs) = Some Connected \<and> ClientClose \<notin> set (trace (run w cfg evs))"
  unfolding run_def using start_keeps by (rule steps_keep)

lemma start_counts:
  "count_list (trace (start w cfg)) InitMCPClient \<le> 1"
  "count_list (trace (start w cfg)) AppListen \<le> 1"
proof -
  have warned: "count_list (trace (warned cfg)) InitMCPClient = 0"
    "count_list (trace (warned cfg)) AppListen = 0"
    by (simp_all add: warned_def initial_fields emit_def)
  show "count_list (trace (start w cfg)) InitMCPClient \<le> 1"
  proof (cases "server (start w cfg) = None")
    case False
    then show ?thesis
      using start_listening(3) [of w cfg] warned by simp
  next
    case True
    show ?thesis
    proof (cases "snd (initMCPClient w cfg initial) = None")
      case False
      then show ?thesis by (rule start_failed)
    next
      case ok: True
      then have "start w cfg = process_exit 1 initial"
        using True by (auto simp: start_eq emit_def split: if_splits)
      then show ?thesis
        by (simp add: process_exit_def initial_fields)
    qed
  qed
  show "count_list (trace (start w cfg)) AppListen \<le> 1"
  proof (cases "server (start w cfg) = None")
    case False
    then show ?thesis
      using start_listening(3) [of w cfg] warned by simp
  next
    case True
    show ?thesis
    proof (cases "snd (initMCPClient w cfg initial) = None")
      case False
      then have "AppListen \<notin> set (trace (start w cfg))" by (rule start_failed)
      then show ?thesis by (simp add: count_list_0_iff)
    next
      case ok: True
      then have "start w cfg = process_exit 1 initial"
        using True by (auto simp: start_eq emit_def split: if_splits)
      then show ?thesis
        by (simp add: process_exit_def initial_fields)
    qed
  qed
qed

lemma start_warned:
  assumes "\<not> unset (MCP_SERVER_URL cfg)"
    "\<not> (unset (API_KEY cfg) \<and> NODE_ENV cfg = Some ''production'')"
  shows "\<exists>es. trace (start w cfg) = trace (warned cfg) @ es
            \<and> ConsoleWarn startup_warning \<notin> set es"
proof -
  obtain es where es: "trace (fst (initMCPClient w cfg (warned cfg)))
      = trace (warned cfg) @ InitMCPClient # es" "set es \<subseteq> {ClientConnect, ClientListTools}"
    using initMCPClient_trace by blast
  then have "ConsoleWarn startup_warning \<notin> set (InitMCPClient # es)"
    "ConsoleWarn startup_warning \<notin> set (InitMCPClient # es @ [AppListen])"
    by auto
  then show ?thesis
    using assms es(1) by (auto simp: start_eq emit_def process_exit_def)
qed

text \<open>
  A process that does not serve requests never serves again, and whatever happens to it
  calls nothing on the client but \<^verbatim>\<open>close\<close>.
\<close>

lemma request_not_served: "\<not> serving st \<Longrightarrow> step w cfg st (Request r req) = st"
  by (simp add: step_def)

lemma step_idle:
  assumes idle: "\<not> serving st"
  shows "\<not> serving (step w cfg st ev)"
    and "\<exists>es. trace (step w cfg st ev) = trace st @ es
           \<and> set es \<subseteq> {ServerClose, SetTimeout 10000, ClientClose}"
proof -
  have "\<not> serving (step w cfg st ev)
      \<and> (\<exists>es. trace (step w cfg st ev) = trace st @ es
             \<and> set es \<subseteq> {ServerClose, SetTimeout 10000, ClientClose})"
  proof (cases "exited st = None")
    case False
    then have "step w cfg st ev = st"
      by (rule step_exited)
    then show ?thesis
      using idle by simp
  next
    case True
    show ?thesis
    proof (cases ev)
      case Signal
      then show ?thesis
        using True idle
        by (cases "server st")
           (auto simp: step_def serving_iff gracefulShutdown_def emit_def process_exit_def)
    next
      case Drained
      show ?thesis
      proof (cases "server st")
        case None
        then show ?thesis
          using True idle Drained by (simp add: step_def server_closed_idle)
      next
        case (Some s)
        show ?thesis
        proof (cases "listening s")
          case True
          then show ?thesis
            using \<open>exited st = None\<close> idle Drained Some
            by (simp add: step_def server_closed_idle)
        next
          case False
          then have still: "\<not> serving (server_closed st)"
            using Some True by (intro server_closed_not_serving)
          have "\<exists>es. trace (server_closed st) = trace st @ es
              \<and> set es \<subseteq> {ServerClose, SetTimeout 10000, ClientClose}"
          proof (cases "mcpClient st")
            case None
            then show ?thesis
              using Some False True by (simp add: server_closed_no_client_eq process_exit_def)
          next
            case client: (Some c)
            then have "mcpClient st \<noteq> None" by simp
            then show ?thesis
              using Some False True by (auto simp: server_closed_client_eq)
          qed
          then show ?thesis
            using still True Drained by (simp add: step_def)
        qed
      qed
    next
      case Settled
      then show ?thesis
        using True idle
        by (auto simp: step_def serving_iff close_settled_def closeCallback_resume_exits
              process_exit_def)
    next
      case Timeout
      then show ?thesis
        using True idle
        by (auto simp: step_def serving_iff force_exit_def process_exit_def)
    next
      case (Request r req)
      then show ?thesis
        using idle by (simp add: request_not_served)
    qed
  qed
  then show "\<not> serving (step w cfg st ev)"
    and "\<exists>es. trace (step w cfg st ev) = trace st @ es
           \<and> set es \<subseteq> {ServerClose, SetTimeout 10000, ClientClose}"
    by blast+
qed

lemma steps_idle:
  assumes "\<not> serving st"
  shows "\<exists>es. trace (foldl (step w cfg) st evs) = trace st @ es
           \<and> set es \<subseteq> {ServerClose, SetTimeout 10000, ClientClose}"
  using assms
proof (induction evs arbitrary: st)
  case Nil
  then show ?case by simp
next
  case (Cons ev evs)
  obtain es where es: "trace (step w cfg st ev) = trace st @ es"
      "set es \<subseteq> {ServerClose, SetTimeout 10000, ClientClose}"
    using step_idle(2) [OF Cons.prems] by blast
  have "\<not> serving (step w cfg st ev)"
    using Cons.prems by (rule step_idle(1))
  then obtain es' where es': "trace (foldl (step w cfg) (step w cfg st ev) evs)
        = trace (step w cfg st ev) @ es'"
      "set es' \<subseteq> {ServerClose, SetTimeout 10000, ClientClose}"
    using Cons.IH by blast
  have "trace (foldl (step w cfg) st (ev # evs)) = trace st @ (es @ es')"
    using es(1) es'(1) by simp
  moreover have "set (es @ es') \<subseteq> {ServerClose, SetTimeout 10000, ClientClose}"
    using es(2) es'(2) by simp
  ultimately show ?case by blast
qed

lemma run_append: "run w cfg (evs @ evs') = foldl (step w cfg) (run w cfg evs) evs'"
  by (simp add: run_def)

lemma run_idle:
  assumes "\<not> serving (run w cfg evs)"
  shows "count_list (trace (run w cfg (evs @ evs'))) ClientListTools
           = count_list (trace (run w cfg evs)) ClientListTools"
    and "count_list (trace (run w cfg (evs @ evs'))) (ClientCallTool t)
           = count_list (trace (run w cfg evs)) (ClientCallTool t)"
proof -
  obtain es where es: "trace (run w cfg (evs @ evs')) = trace (run w cfg evs) @ es"
      "set es \<subseteq> {ServerClose, SetTimeout 10000, ClientClose}"
    unfolding run_append using steps_idle [OF assms] by blast
  have "ClientListTools \<notin> set es" "ClientCallTool t \<notin> set es"
    using es(2) by auto
  then have "count_list es ClientListTools = 0" "count_list es (ClientCallTool t) = 0"
    by (simp_all add: count_list_0_iff)
  then show "count_list (trace (run w cfg (evs @ evs'))) ClientListTools
           = count_list (trace (run w cfg evs)) ClientListTools"
    and "count_list (trace (run w cfg (evs @ evs'))) (ClientCallTool t)
           = count_list (trace (run w cfg evs)) (ClientCallTool t)"
    using es(1) by simp_all
qed

text \<open>
  Once \<^verbatim>\<open>close\<close> has been called on the client, a callback waits for it and a timer is
  armed.
\<close>

lemma serve_keeps_counters:
  "timers (serve r w cfg st req) = timers st" "closing (serve r w cfg st req) = closing st"
proof -
  obtain ws out where route: "protected r w cfg st req = (ws, out)"
    by (cases "protected r w cfg st req")
  show "timers (serve r w cfg st req) = timers st"
    using route by (cases "reply out") (simp_all add: serve_def emit_def uncaught_def Let_def)
  show "closing (serve r w cfg st req) = closing st"
    using route by (cases "reply out") (simp_all add: serve_def emit_def uncaught_def Let_def)
qed

lemma step_waits:
  assumes armed: "\<forall>s. server st = Some s \<and> 0 < onClose s \<longrightarrow> 0 < timers st"
    and waits: "ClientClose \<in> set (trace st) \<longrightarrow> 0 < closing st \<and> 0 < timers st"
  shows "(\<forall>s. server (step w cfg st ev) = Some s \<and> 0 < onClose s
              \<longrightarrow> 0 < timers (step w cfg st ev))
       \<and> (ClientClose \<in> set (trace (step w cfg st ev))
              \<longrightarrow> 0 < closing (step w cfg st ev) \<and> 0 < timers (step w cfg st ev))"
proof (cases "exited st = None")
  case False
  then have "step w cfg st ev = st"
    by (rule step_exited)
  then show ?thesis
    using assms by simp
next
  case True
  show ?thesis
  proof (cases ev)
    case Signal
    then show ?thesis
      using True assms
      by (cases "server st")
         (auto simp: step_def gracefulShutdown_def emit_def process_exit_def)
  next
    case Drained
    show ?thesis
    proof (cases "server st")
      case None
      then show ?thesis
        using True assms Drained by (simp add: step_def server_closed_idle)
    next
      case (Some s)
      show ?thesis
      proof (cases "listening s")
        case True
        then show ?thesis
          using \<open>exited st = None\<close> assms Drained Some
          by (simp add: step_def server_closed_idle)
      next
        case False
        show ?thesis
        proof (cases "mcpClient st")
          case None
          then show ?thesis
            using Some False True Drained assms
            by (simp add: step_def server_closed_no_client_eq process_exit_def)
        next
          case client: (Some c)
          then have "mcpClient st \<noteq> None" by simp
          then show ?thesis
            using Some False True Drained assms
            by (auto simp: step_def server_closed_client_eq)
        qed
      qed
    qed
  next
    case Settled
    then show ?thesis
      using True assms
      by (auto simp: step_def close_settled_def closeCallback_resume_exits process_exit_def)
  next
    case Timeout
    then show ?thesis
      using True assms by (auto simp: step_def force_exit_def process_exit_def)
  next
    case (Request r req)
    obtain es where es: "trace (serve r w cfg st req) = trace st @ es" "ClientClose \<notin> set es"
      using serve_adds by blast
    show ?thesis
      using True assms Request es
      by (auto simp: step_def serve_frame serve_keeps_counters)
  qed
qed

lemma steps_wait:
  assumes "\<forall>s. server st = Some s \<and> 0 < onClose s \<longrightarrow> 0 < timers st"
    and "ClientClose \<in> set (trace st) \<longrightarrow> 0 < closing st \<and> 0 < timers st"
  shows "ClientClose \<in> set (trace (foldl (step w cfg) st evs))
     \<longrightarrow> 0 < closing (foldl (step w cfg) st evs) \<and> 0 < timers (foldl (step w cfg) st evs)"
  using assms
proof (induction evs arbitrary: st)
  case Nil
  then show ?case by simp
next
  case (Cons ev evs)
  have "(\<forall>s. server (step w cfg st ev) = Some s \<and> 0 < onClose s
              \<longrightarrow> 0 < timers (step w cfg st ev))
       \<and> (ClientClose \<in> set (trace (step w cfg st ev))
              \<longrightarrow> 0 < closing (step w cfg st ev) \<and> 0 < timers (step w cfg st ev))"
    using Cons.prems by (rule step_waits)
  then show ?case
    using Cons.IH [of "step w cfg st ev"] by simp
qed

lemma run_waits:
  "ClientClose \<in> set (trace (run w cfg evs))
     \<longrightarrow> 0 < closing (run w cfg evs) \<and> 0 < timers (run w cfg evs)"
proof -
  obtain es where es: "trace (fst (initMCPClient w cfg (warned cfg)))
      = trace (warned cfg) @ InitMCPClient # es" "set es \<subseteq> {ClientConnect, ClientListTools}"
    using initMCPClient_trace by blast
  have "ClientClose \<notin> set (trace (warned cfg))"
    by (simp add: warned_def initial_fields emit_def)
  then have fresh: "ClientClose \<notin> set (trace (start w cfg))"
    using es by (auto simp: start_eq process_exit_def initial_fields emit_def)
  have "\<forall>s. server (start w cfg) = Some s \<and> 0 < onClose s \<longrightarrow> 0 < timers (start w cfg)"
  proof (cases "server (start w cfg) = None")
    case True
    then show ?thesis by simp
  next
    case False
    then have "server (start w cfg) = Some \<lparr>listening = True, onClose = 0, drained = False\<rparr>"
      by (rule start_listening(5))
    then show ?thesis by simp
  qed
  then show ?thesis
    unfolding run_def using fresh by (intro steps_wait) simp_all
qed


section \<open>Properties of the request gateway\<close>

text \<open>
  What a handler calls and which statuses it can answer: 503 is answered exactly when
  \<^verbatim>\<open>mcpClient\<close> is unset.
\<close>

lemma call_and_send_calls: "calls (call_and_send w rid t) = [CallTool t]"
  by (simp add: call_and_send_def split: sum.splits)

lemma call_and_send_payload:
  "callTool w t = Inr p \<Longrightarrow> reply (call_and_send w rid t) = Sent \<lparr>status = 200, payload = p\<rparr>"
  by (simp add: call_and_send_def res_json_def)

lemma status_of_failed: "failed rid e = Sent res \<Longrightarrow> status res = 500"
  by (auto simp: failed_def and_then_def status_json_def split: sum.splits)

lemma status_of_call_and_send:
  "reply (call_and_send w rid t) = Sent res \<Longrightarrow> status res = 200 \<or> status res = 500"
  by (auto simp: call_and_send_def res_json_def split: sum.splits dest: status_of_failed)

lemma status_of_handler:
  assumes "mcpClient st \<noteq> None" "reply (handler r w st req) = Sent res"
  shows "status res = 200 \<or> status res = 400 \<or> status res = 500"
proof (cases r)
  case GET_tools
  then show ?thesis
    using assms
    by (auto simp: get_tools_def res_json_def split: sum.splits if_splits dest: status_of_failed)
next
  case GET_accounts
  then show ?thesis
    using assms by (auto simp: get_accounts_def dest: status_of_call_and_send)
next
  case POST_execute_gaql
  then show ?thesis
    using assms
    by (auto simp: post_execute_gaql_def Let_def query_required_def customer_id_required_def
          status_json_def split: if_splits dest: status_of_call_and_send status_of_failed)
next
  case GET_gaql_doc
  then show ?thesis
    using assms by (auto simp: get_gaql_doc_def dest: status_of_call_and_send)
next
  case GET_reporting_view_doc
  then show ?thesis
    using assms by (auto simp: get_reporting_view_doc_def Let_def dest: status_of_call_and_send)
qed

lemma handler_without_client:
  "mcpClient st = None \<Longrightarrow> handler r w st req = \<lparr>reply = Sent not_initialized, calls = []\<rparr>"
  by (cases r)
     (simp_all add: get_tools_def get_accounts_def post_execute_gaql_def get_gaql_doc_def
        get_reporting_view_doc_def)

lemma handler_calls:
  "calls (handler r w st req) = [] \<or> calls (handler r w st req) = [ListTools]
   \<or> (\<exists>t. handler r w st req = call_and_send w (requestId req) t)"
  by (cases r)
     (auto simp: get_tools_def get_accounts_def post_execute_gaql_def get_gaql_doc_def
        get_reporting_view_doc_def Let_def split: sum.splits)

text \<open>The same for the earlier version of the handlers.\<close>

lemma call_and_send_plain_calls: "calls (call_and_send_plain w t) = [CallTool t]"
  by (simp add: call_and_send_plain_def split: sum.splits)

lemma call_and_send_plain_payload:
  "callTool w t = Inr p \<Longrightarrow> reply (call_and_send_plain w t) = Sent \<lparr>status = 200, payload = p\<rparr>"
  by (simp add: call_and_send_plain_def res_json_def)

lemma status_of_failed_plain: "failed_plain e = Sent res \<Longrightarrow> status res = 500"
  by (auto simp: failed_plain_def status_json_def split: sum.splits)

lemma status_of_call_and_send_plain:
  "reply (call_and_send_plain w t) = Sent res \<Longrightarrow> status res = 200 \<or> status res = 500"
  by (auto simp: call_and_send_plain_def res_json_def split: sum.splits
           dest: status_of_failed_plain)

lemma status_of_handler_plain:
  assumes "mcpClient st \<noteq> None" "reply (handler_plain r w st req) = Sent res"
  shows "status res = 200 \<or> status res = 400 \<or> status res = 500"
proof (cases r)
  case GET_tools
  then show ?thesis
    using assms
    by (auto simp: get_tools_plain_def res_json_def split: sum.splits
             dest: status_of_failed_plain)
next
  case GET_accounts
  then show ?thesis
    using assms by (auto simp: get_accounts_plain_def dest: status_of_call_and_send_plain)
next
  case POST_execute_gaql
  then show ?thesis
    using assms
    by (auto simp: post_execute_gaql_plain_def Let_def query_required_def
          customer_id_required_def status_json_def split: if_splits
          dest: status_of_call_and_send_plain)
next
  case GET_gaql_doc
  then show ?thesis
    using assms by (auto simp: get_gaql_doc_plain_def dest: status_of_call_and_send_plain)
next
  case GET_reporting_view_doc
  then show ?thesis
    using assms
    by (auto simp: get_reporting_view_doc_plain_def Let_def dest: status_of_call_and_send_plain)
qed

lemma handler_plain_without_client:
  "mcpClient st = None \<Longrightarrow>
   handler_plain r w st req = \<lparr>reply = Sent not_initialized, calls = []\<rparr>"
  by (cases r)
     (simp_all add: get_tools_plain_def get_accounts_plain_def post_execute_gaql_plain_def
        get_gaql_doc_plain_def get_reporting_view_doc_plain_def)

lemma handler_plain_calls:
  "calls (handler_plain r w st req) = [] \<or> calls (handler_plain r w st req) = [ListTools]
   \<or> (\<exists>t. handler_plain r w st req = call_and_send_plain w t)"
  by (cases r)
     (auto simp: get_tools_plain_def get_accounts_plain_def post_execute_gaql_plain_def
        get_gaql_doc_plain_def get_reporting_view_doc_plain_def Let_def split: sum.splits)

text \<open>The sample collaborators start the process, and the sample request is forwarded.\<close>

lemma serializeError_js_error: "\<exists>env. serializeError (js_error n m) = Inr env"
  by (cases "n = ''Error''")
     (simp_all add: serializeError_def js_error_def and_then_def Error_prototype_def
        Object_prototype_def Let_def)

lemma logged_js_error: "logged (js_error n m) = None"
  using serializeError_js_error [of n m] by (auto simp: logged_def)

lemma sample_start:
  "mcpClient (start (answering p) keyed) = Some Connected"
  "mcpClient (start disconnected keyed) = Some Connected"
  by (simp_all add: start_def initMCPClient_def answering_def disconnected_def keyed_def unset_def
        Let_def emit_def warned_def logged_js_error)

lemma sample_gaql:
  "post_execute_gaql (answering p) (start (answering p) keyed) gaql_request
     = \<lparr>reply = Sent \<lparr>status = 200, payload = p\<rparr>, calls = [CallTool gaql_call]\<rparr>"
  using sample_start(1) [of p]
  by (simp add: post_execute_gaql_def gaql_request_def gaql_call_def field_def has_substring_def
        or_null_def call_and_send_def answering_def res_json_def)

lemma status_of_not_initialized:
  "status not_initialized = 503"
  "payload not_initialized = JObj [(''error'', JStr ''MCP client not initialized'')]"
  by (simp_all add: not_initialized_def status_json_def)

lemma sample_shutdown:
  "run disconnected keyed [Signal, Drained]
     = \<lparr>mcpTransport = True, mcpClient = Some Closed,
        server = Some \<lparr>listening = False, onClose = 0, drained = True\<rparr>, timers = 1,
        closing = 1, exited = None,
        trace = [InitMCPClient, ClientConnect, ClientListTools, AppListen, ServerClose,
                 SetTimeout 10000, ClientClose]\<rparr>"
  by (simp add: run_def step_def start_def initMCPClient_def disconnected_def answering_def
        keyed_def unset_def Let_def emit_def warned_def initial_def logged_js_error
        gracefulShutdown_def server_closed_def closeCallback_begin_def)

lemma validation_envelopes:
  "query_required = \<lparr>status = 400, payload = JObj [(''error'', JStr ''query is required'')]\<rparr>"
  "customer_id_required
     = \<lparr>status = 400, payload = JObj [(''error'', JStr ''customer_id is required'')]\<rparr>"
  by (simp_all add: query_required_def customer_id_required_def status_json_def)

text \<open>
  Claim C3. Whenever a handler has invoked the upstream with \<^verbatim>\<open>callTool\<close> and the
  upstream has returned a payload, the response has status 200 and its body is that
  payload, the same value, whatever it contains (a payload with \<^verbatim>\<open>isError: true\<close>
  included). This holds for every route, in \<^verbatim>\<open>src/index.js\<close> and in the earlier
  version of the handlers.
\<close>

theorem payload_passed_through:
  "(\<forall>t p. CallTool t \<in> set (calls (handler r w st req)) \<and> callTool w t = Inr p
       \<longrightarrow> reply (handler r w st req) = Sent \<lparr>status = 200, payload = p\<rparr>)
   \<and> (\<forall>t p. CallTool t \<in> set (calls (handler_plain r w st req)) \<and> callTool w t = Inr p
       \<longrightarrow> reply (handler_plain r w st req) = Sent \<lparr>status = 200, payload = p\<rparr>)"
proof -
  have current: "reply (handler r w st req) = Sent \<lparr>status = 200, payload = p\<rparr>"
    if "CallTool t \<in> set (calls (handler r w st req))" "callTool w t = Inr p" for t p
    using handler_calls [of r w st req] that
    by (auto simp: call_and_send_calls call_and_send_payload)
  have earlier: "reply (handler_plain r w st req) = Sent \<lparr>status = 200, payload = p\<rparr>"
    if "CallTool t \<in> set (calls (handler_plain r w st req))" "callTool w t = Inr p" for t p
    using handler_plain_calls [of r w st req] that
    by (auto simp: call_and_send_plain_calls call_and_send_plain_payload)
  show ?thesis
    using current earlier by blast
qed

theorem payload_passed_through_witness:
  "CallTool gaql_call
     \<in> set (calls (handler POST_execute_gaql (answering tool_error)
                      (start (answering tool_error) keyed) gaql_request))
   \<and> callTool (answering tool_error) gaql_call = Inr tool_error
   \<and> reply (handler POST_execute_gaql (answering tool_error)
               (start (answering tool_error) keyed) gaql_request)
       = Sent \<lparr>status = 200, payload = tool_error\<rparr>
   \<and> protected POST_execute_gaql (answering tool_error) keyed
         (start (answering tool_error) keyed) gaql_request
       = ([], \<lparr>reply = Sent \<lparr>status = 200, payload = tool_error\<rparr>, calls = [CallTool gaql_call]\<rparr>)"
proof -
  let ?w = "answering tool_error"
  have called: "CallTool gaql_call
      \<in> set (calls (handler POST_execute_gaql ?w (start ?w keyed) gaql_request))"
    by (simp add: sample_gaql)
  have answered: "callTool ?w gaql_call = Inr tool_error"
    by (simp add: answering_def)
  have allowed: "authenticateApiKey ?w keyed gaql_request = ([], Next)"
    by (simp add: authenticateApiKey_def keyed_def gaql_request_def apiKey_def unset_def
          and_then_def answering_def node_Buffer_from_def utf8_def timingSafeEqual_def)
  have sent: "reply (handler POST_execute_gaql ?w (start ?w keyed) gaql_request)
      = Sent \<lparr>status = 200, payload = tool_error\<rparr>"
    using called answered
      payload_passed_through [of POST_execute_gaql ?w "start ?w keyed" gaql_request]
    by blast
  show ?thesis
    using called answered sent allowed by (simp add: protected_def sample_gaql)
qed

section \<open>Validation of the GAQL request\<close>

text \<open>
  With a client in place and a \<^verbatim>\<open>query\<close> that is absent, \<^verbatim>\<open>null\<close> or a string, the
  handler of \<^verbatim>\<open>src/index.js\<close> answers 400 \<^verbatim>\<open>query is required\<close> for a missing or
  empty query and 400 \<^verbatim>\<open>customer_id is required\<close> for a missing or empty customer
  id, and calls nothing upstream. The earlier version of the handler does so for a
  \<^verbatim>\<open>query\<close> of any type.
\<close>

theorem execute_gaql_validation:
  assumes up: "mcpClient st \<noteq> None"
  shows "(has_substring (field (body req) ''query'') \<and> \<not> truthy (field (body req) ''query'')
            \<longrightarrow> post_execute_gaql w st req = \<lparr>reply = Sent query_required, calls = []\<rparr>)
       \<and> (has_substring (field (body req) ''query'') \<and> truthy (field (body req) ''query'')
            \<and> \<not> truthy (field (body req) ''customer_id'')
            \<longrightarrow> post_execute_gaql w st req = \<lparr>reply = Sent customer_id_required, calls = []\<rparr>)
       \<and> (\<not> truthy (field (body req) ''query'')
            \<longrightarrow> post_execute_gaql_plain w st req = \<lparr>reply = Sent query_required, calls = []\<rparr>)
       \<and> (truthy (field (body req) ''query'') \<and> \<not> truthy (field (body req) ''customer_id'')
            \<longrightarrow> post_execute_gaql_plain w st req
                  = \<lparr>reply = Sent customer_id_required, calls = []\<rparr>)
       \<and> query_required
            = \<lparr>status = 400, payload = JObj [(''error'', JStr ''query is required'')]\<rparr>
       \<and> customer_id_required
            = \<lparr>status = 400, payload = JObj [(''error'', JStr ''customer_id is required'')]\<rparr>"
  using up validation_envelopes
  by (auto simp: post_execute_gaql_def post_execute_gaql_plain_def Let_def)

theorem execute_gaql_validation_witness:
  "mcpClient (start (answering tool_error) keyed) \<noteq> None
   \<and> has_substring (field (body plain_request) ''query'')
   \<and> \<not> truthy (field (body plain_request) ''query'')
   \<and> post_execute_gaql (answering tool_error) (start (answering tool_error) keyed) plain_request
       = \<lparr>reply = Sent query_required, calls = []\<rparr>
   \<and> truthy (field (body (plain_request\<lparr>body := [(''query'', JStr ''SELECT 1'')]\<rparr>)) ''query'')
   \<and> post_execute_gaql (answering tool_error) (start (answering tool_error) keyed)
        (plain_request\<lparr>body := [(''query'', JStr ''SELECT 1'')]\<rparr>)
       = \<lparr>reply = Sent customer_id_required, calls = []\<rparr>"
proof -
  let ?w = "answering tool_error"
  let ?req = "plain_request\<lparr>body := [(''query'', JStr ''SELECT 1'')]\<rparr>"
  have up: "mcpClient (start ?w keyed) \<noteq> None"
    by (simp add: sample_start)
  have missing: "has_substring (field (body plain_request) ''query'')"
    "\<not> truthy (field (body plain_request) ''query'')"
    by (simp_all add: plain_request_def field_def has_substring_def)
  have given: "has_substring (field (body ?req) ''query'')" "truthy (field (body ?req) ''query'')"
    "\<not> truthy (field (body ?req) ''customer_id'')"
    by (simp_all add: field_def has_substring_def)
  show ?thesis
    using up missing given
      execute_gaql_validation [OF up, of plain_request ?w]
      execute_gaql_validation [OF up, of ?req ?w]
    by blast
qed

text \<open>
  Claim C4 at the body \<^verbatim>\<open>{"query": 5}\<close>, which has a query and no customer id: the
  handler of \<^verbatim>\<open>src/index.js\<close> answers 500, because the line that logs the query calls
  \<^verbatim>\<open>substring\<close> on a number; the earlier version of the handler answers 400 with
  \<^verbatim>\<open>customer_id is required\<close>. For \<^verbatim>\<open>{"query": 0}\<close> the answer of
  \<^verbatim>\<open>src/index.js\<close> is 500 as well.
\<close>

theorem execute_gaql_number_query:
  "post_execute_gaql (answering tool_error) (start (answering tool_error) keyed)
     (plain_request\<lparr>body := [(''query'', JNum 5)]\<rparr>)
     = \<lparr>reply = Sent \<lparr>status = 500,
                       payload = JObj [(''error'', JStr ''query?.substring is not a function''),
                                       (''requestId'', JStr ''lx2k9a'')]\<rparr>,
        calls = []\<rparr>
   \<and> post_execute_gaql_plain (answering tool_error) (start (answering tool_error) keyed)
     (plain_request\<lparr>body := [(''query'', JNum 5)]\<rparr>)
     = \<lparr>reply = Sent customer_id_required, calls = []\<rparr>
   \<and> post_execute_gaql (answering tool_error) (start (answering tool_error) keyed)
     (plain_request\<lparr>body := [(''query'', JNum 0)]\<rparr>)
     = \<lparr>reply = Sent \<lparr>status = 500,
                       payload = JObj [(''error'', JStr ''query?.substring is not a function''),
                                       (''requestId'', JStr ''lx2k9a'')]\<rparr>,
        calls = []\<rparr>"
proof -
  have thrown: "failed ''lx2k9a'' (js_error ''TypeError'' ''query?.substring is not a function'')
      = Sent \<lparr>status = 500,
              payload = JObj [(''error'', JStr ''query?.substring is not a function''),
                              (''requestId'', JStr ''lx2k9a'')]\<rparr>"
    by (simp add: failed_def serializeError_def js_error_def and_then_def Error_prototype_def
          Object_prototype_def status_json_def)
  show ?thesis
    using thrown sample_start(1) [of tool_error]
    by (simp add: post_execute_gaql_def post_execute_gaql_plain_def plain_request_def field_def
          has_substring_def)
qed

section \<open>The readiness test\<close>

text \<open>
  Claim C2. Every handler, in both versions, begins by testing that \<^verbatim>\<open>mcpClient\<close> is
  set. While it is unset the handler answers 503 with \<^verbatim>\<open>MCP client not initialized\<close>
  at once: it calls nothing upstream and does not touch the handle. The test is on the
  handle alone, and \<^verbatim>\<open>initMCPClient\<close> assigns the handle before it connects; no
  request meets a handle in that state, because the server is created only after
  \<^verbatim>\<open>initMCPClient\<close> has succeeded. In every run of the process, whenever a request
  is served the client is connected, and a process whose client is absent, created but not
  connected, or closed serves no request.
\<close>

theorem handler_readiness:
  "(\<forall>r. mcpClient st = None
        \<longrightarrow> handler r w st req = \<lparr>reply = Sent not_initialized, calls = []\<rparr>
            \<and> handler_plain r w st req = \<lparr>reply = Sent not_initialized, calls = []\<rparr>)
   \<and> status not_initialized = 503
   \<and> payload not_initialized = JObj [(''error'', JStr ''MCP client not initialized'')]
   \<and> (\<forall>evs. serving (run w cfg evs) \<longrightarrow> mcpClient (run w cfg evs) = Some Connected)
   \<and> (\<forall>evs r req'. mcpClient (run w cfg evs) \<noteq> Some Connected
        \<longrightarrow> step w cfg (run w cfg evs) (Request r req') = run w cfg evs)
   \<and> (\<forall>evs. server (run w cfg evs) \<noteq> None \<longrightarrow> snd (initMCPClient w cfg initial) = None)"
proof -
  have ready: "mcpClient (run w cfg evs) = Some Connected" if "serving (run w cfg evs)" for evs
    using that run_keeps [of w cfg evs] by simp
  have refused: "step w cfg (run w cfg evs) (Request r req') = run w cfg evs"
    if "mcpClient (run w cfg evs) \<noteq> Some Connected" for evs r req'
  proof -
    have "\<not> serving (run w cfg evs)"
      using that ready by blast
    then show ?thesis
      by (rule request_not_served)
  qed
  have initialized: "snd (initMCPClient w cfg initial) = None"
    if "server (run w cfg evs) \<noteq> None" for evs
  proof (rule ccontr)
    assume failed: "snd (initMCPClient w cfg initial) \<noteq> None"
    then have "exited (start w cfg) \<noteq> None"
      using start_failed(1) [OF failed] by simp
    then have "run w cfg evs = start w cfg"
      unfolding run_def by (rule steps_exited)
    then show False
      using that start_failed(2) [OF failed] by simp
  qed
  show ?thesis
    using handler_without_client [of st _ w req] handler_plain_without_client [of st _ w req]
      status_of_not_initialized ready refused initialized
    by blast
qed

theorem handler_readiness_witness:
  "mcpClient initial = None
   \<and> handler GET_tools (answering tool_error) initial plain_request
       = \<lparr>reply = Sent not_initialized, calls = []\<rparr>
   \<and> serving (run (answering tool_error) keyed [Signal])
   \<and> mcpClient (run (answering tool_error) keyed [Signal]) = Some Connected
   \<and> mcpClient (run refusing keyed []) = Some Created
   \<and> mcpClient (run refusing keyed []) \<noteq> Some Connected
   \<and> step refusing keyed (run refusing keyed []) (Request GET_tools plain_request)
       = run refusing keyed []
   \<and> server (run (answering tool_error) keyed [Signal]) \<noteq> None
   \<and> snd (initMCPClient (answering tool_error) keyed initial) = None"
proof -
  let ?w = "answering tool_error"
  have absent: "mcpClient initial = None"
    by (simp add: initial_fields)
  have ok: "snd (initMCPClient ?w keyed initial) = None"
    by (simp add: initMCPClient_def answering_def keyed_def unset_def Let_def)
  have listening: "server (start ?w keyed)
      = Some \<lparr>listening = True, onClose = 0, drained = False\<rparr>"
    using ok by (intro start_succeeds) (simp_all add: keyed_def unset_def)
  have alive: "exited (start ?w keyed) = None"
    using listening start_listening(4) [of ?w keyed] by simp
  have signalled: "serving (run ?w keyed [Signal])" "server (run ?w keyed [Signal]) \<noteq> None"
    using listening alive
    by (simp_all add: run_def step_def serving_def gracefulShutdown_def emit_def)
  have created: "mcpClient (run refusing keyed []) = Some Created"
    by (simp add: run_def start_def initMCPClient_def refusing_def disconnected_def
          answering_def keyed_def unset_def Let_def emit_def warned_def rethrow_def
          logged_js_error process_exit_def)
  then have unready: "mcpClient (run refusing keyed []) \<noteq> Some Connected"
    by simp
  have guard: "handler GET_tools ?w initial plain_request
      = \<lparr>reply = Sent not_initialized, calls = []\<rparr>"
    using absent handler_readiness [of initial ?w plain_request keyed] by blast
  have ready: "mcpClient (run ?w keyed [Signal]) = Some Connected"
    using signalled(1) handler_readiness [of initial ?w plain_request keyed] by blast
  have refused: "step refusing keyed (run refusing keyed []) (Request GET_tools plain_request)
      = run refusing keyed []"
    using unready handler_readiness [of initial refusing plain_request keyed] by blast
  show ?thesis
    using absent guard signalled ready created unready refused ok by (intro conjI)
qed

section \<open>After the session is closed\<close>

text \<open>
  Claim C5. \<^verbatim>\<open>close\<close> is called on the client by the callback of \<^verbatim>\<open>server.close\<close>,
  which runs when the server has stopped listening and its last connection has ended. In
  every run, from the moment \<^verbatim>\<open>close\<close> has been called the process serves no request:
  a request changes nothing, and whatever happens later, \<^verbatim>\<open>listTools\<close> and
  \<^verbatim>\<open>callTool\<close> are not called again, so the closed handle is never used. While
  \<^verbatim>\<open>close\<close> is pending the process is alive; it ends with code 0 when \<^verbatim>\<open>close\<close>
  settles and with code 1 when the timer fires first, and a process that has ended reacts
  to nothing. No request is left to answer after \<^verbatim>\<open>close\<close>; the handlers themselves
  have no test for a closed client, which stays in \<^verbatim>\<open>mcpClient\<close>.
\<close>

theorem closed_session_exits:
  "(\<forall>evs. ClientClose \<in> set (trace (run w cfg evs)) \<longrightarrow>
        \<not> serving (run w cfg evs)
      \<and> (\<forall>r req. step w cfg (run w cfg evs) (Request r req) = run w cfg evs)
      \<and> (\<forall>evs'. count_list (trace (run w cfg (evs @ evs'))) ClientListTools
                  = count_list (trace (run w cfg evs)) ClientListTools
               \<and> (\<forall>t. count_list (trace (run w cfg (evs @ evs'))) (ClientCallTool t)
                        = count_list (trace (run w cfg evs)) (ClientCallTool t))))
   \<and> (\<forall>evs. ClientClose \<in> set (trace (run w cfg evs)) \<and> exited (run w cfg evs) = None \<longrightarrow>
        exited (step w cfg (run w cfg evs) Settled) = Some 0
      \<and> exited (step w cfg (run w cfg evs) Timeout) = Some 1)
   \<and> (\<forall>evs ev. exited (run w cfg evs) \<noteq> None
        \<longrightarrow> step w cfg (run w cfg evs) ev = run w cfg evs)"
proof -
  have idle: "\<not> serving (run w cfg evs)"
    if "ClientClose \<in> set (trace (run w cfg evs))" for evs
    using that run_keeps [of w cfg evs] by blast
  have unserved: "step w cfg (run w cfg evs) (Request r req) = run w cfg evs"
    if "ClientClose \<in> set (trace (run w cfg evs))" for evs r req
    using idle [OF that] by (rule request_not_served)
  have unused: "count_list (trace (run w cfg (evs @ evs'))) ClientListTools
        = count_list (trace (run w cfg evs)) ClientListTools
      \<and> (\<forall>t. count_list (trace (run w cfg (evs @ evs'))) (ClientCallTool t)
              = count_list (trace (run w cfg evs)) (ClientCallTool t))"
    if "ClientClose \<in> set (trace (run w cfg evs))" for evs evs'
    using run_idle [OF idle [OF that]] by blast
  have ends: "exited (step w cfg (run w cfg evs) Settled) = Some 0
      \<and> exited (step w cfg (run w cfg evs) Timeout) = Some 1"
    if "ClientClose \<in> set (trace (run w cfg evs))" "exited (run w cfg evs) = None" for evs
  proof -
    have "0 < closing (run w cfg evs)" "0 < timers (run w cfg evs)"
      using that(1) run_waits [of w cfg evs] by simp_all
    then show ?thesis
      using that(2)
      by (simp add: step_def close_settled_def closeCallback_resume_exits force_exit_def
            process_exit_def)
  qed
  have ended: "step w cfg (run w cfg evs) ev = run w cfg evs"
    if "exited (run w cfg evs) \<noteq> None" for evs ev
    using that by (rule step_exited)
  show ?thesis
    using idle unserved unused ends ended by blast
qed

theorem closed_session_exits_witness:
  "ClientClose \<in> set (trace (run disconnected keyed [Signal, Drained]))
   \<and> exited (run disconnected keyed [Signal, Drained]) = None
   \<and> step disconnected keyed (run disconnected keyed [Signal, Drained])
        (Request GET_tools plain_request)
       = run disconnected keyed [Signal, Drained]
   \<and> count_list (trace (run disconnected keyed
         ([Signal, Drained] @ [Request GET_tools plain_request, Signal]))) ClientListTools
       = count_list (trace (run disconnected keyed [Signal, Drained])) ClientListTools
   \<and> exited (step disconnected keyed (run disconnected keyed [Signal, Drained]) Settled) = Some 0
   \<and> exited (step disconnected keyed (run disconnected keyed [Signal, Drained]) Timeout) = Some 1
   \<and> exited (run disconnected keyed [Signal, Drained, Settled]) \<noteq> None
   \<and> step disconnected keyed (run disconnected keyed [Signal, Drained, Settled])
        (Request GET_tools plain_request)
       = run disconnected keyed [Signal, Drained, Settled]"
proof -
  let ?st = "run disconnected keyed [Signal, Drained]"
  have closed: "ClientClose \<in> set (trace ?st)" and alive: "exited ?st = None"
    by (simp_all add: sample_shutdown)
  have later: "run disconnected keyed [Signal, Drained, Settled]
      = step disconnected keyed ?st Settled"
    by (simp add: run_def)
  have settled: "exited (step disconnected keyed ?st Settled) = Some 0"
    and timed: "exited (step disconnected keyed ?st Timeout) = Some 1"
    using closed alive closed_session_exits [of disconnected keyed] by blast+
  have ended: "exited (run disconnected keyed [Signal, Drained, Settled]) \<noteq> None"
    using settled later by simp
  have unserved: "step disconnected keyed ?st (Request GET_tools plain_request) = ?st"
    and unused: "count_list (trace (run disconnected keyed
          ([Signal, Drained] @ [Request GET_tools plain_request, Signal]))) ClientListTools
        = count_list (trace ?st) ClientListTools"
    using closed closed_session_exits [of disconnected keyed] by blast+
  have ignored: "step disconnected keyed (run disconnected keyed [Signal, Drained, Settled])
        (Request GET_tools plain_request)
      = run disconnected keyed [Signal, Drained, Settled]"
    using ended closed_session_exits [of disconnected keyed] by blast
  show ?thesis
    using closed alive unserved unused settled timed ended ignored by (intro conjI)
qed

section \<open>Two termination signals\<close>

text \<open>
  Claim C6, as the code has it. Nothing in \<^verbatim>\<open>gracefulShutdown\<close> remembers that a
  shutdown has begun: called twice on a live process with a server, it registers two
  callbacks for the server's \<^verbatim>\<open>close\<close> event and arms two timers. When the event
  comes, each registered callback calls \<^verbatim>\<open>close\<close> on the client if there is one, so
  the session is closed once for each signal, and the callbacks wait for \<^verbatim>\<open>close\<close>
  with the process alive; when \<^verbatim>\<open>close\<close> settles the process exits with code 0, also
  when it rejects, and when a timer fires first the process exits with code 1. Without a
  client nothing is closed and the process exits with code 0 at once. Nothing is thrown.
\<close>

theorem shutdown_twice:
  assumes live: "server st = Some s" "exited st = None"
  shows "gracefulShutdown (gracefulShutdown st)
           = st\<lparr>server := Some \<lparr>listening = False, onClose = onClose s + 2,
                                 drained = drained s\<rparr>,
                timers := timers st + 2,
                trace := trace st @ [ServerClose, SetTimeout 10000, ServerClose, SetTimeout 10000]\<rparr>
       \<and> (mcpClient st \<noteq> None \<longrightarrow>
            trace (server_closed (gracefulShutdown (gracefulShutdown st)))
              = trace (gracefulShutdown (gracefulShutdown st))
                @ replicate (onClose s + 2) ClientClose
            \<and> closing (server_closed (gracefulShutdown (gracefulShutdown st)))
                = closing st + onClose s + 2
            \<and> exited (server_closed (gracefulShutdown (gracefulShutdown st))) = None
            \<and> exited (close_settled w (server_closed (gracefulShutdown (gracefulShutdown st))))
                = Some 0
            \<and> exited (force_exit (server_closed (gracefulShutdown (gracefulShutdown st))))
                = Some 1)
       \<and> (mcpClient st = None \<longrightarrow>
            trace (server_closed (gracefulShutdown (gracefulShutdown st)))
              = trace (gracefulShutdown (gracefulShutdown st))
            \<and> exited (server_closed (gracefulShutdown (gracefulShutdown st))) = Some 0)
       \<and> closeCallback_resume w st = process_exit 0 st"
proof -
  let ?st = "gracefulShutdown (gracefulShutdown st)"
  let ?s = "\<lparr>listening = False, onClose = onClose s + 2, drained = drained s\<rparr>"
  have twice: "?st = st\<lparr>server := Some ?s, timers := timers st + 2,
      trace := trace st @ [ServerClose, SetTimeout 10000, ServerClose, SetTimeout 10000]\<rparr>"
    using live(1) by (simp add: gracefulShutdown_def emit_def)
  have after: "server ?st = Some ?s" "\<not> listening ?s" "exited ?st = None"
    "mcpClient ?st = mcpClient st" "closing ?st = closing st" "timers ?st = timers st + 2"
    using live(2) by (simp_all add: twice)
  have with_client: "trace (server_closed ?st) = trace ?st @ replicate (onClose s + 2) ClientClose
      \<and> closing (server_closed ?st) = closing st + onClose s + 2
      \<and> exited (server_closed ?st) = None
      \<and> exited (close_settled w (server_closed ?st)) = Some 0
      \<and> exited (force_exit (server_closed ?st)) = Some 1"
    if "mcpClient st \<noteq> None"
  proof -
    have "mcpClient ?st \<noteq> None"
      using that after(4) by simp
    then have closed: "server_closed ?st
        = ?st\<lparr>server := Some (?s\<lparr>onClose := 0, drained := True\<rparr>), mcpClient := Some Closed,
              trace := trace ?st @ replicate (onClose ?s) ClientClose,
              closing := closing ?st + onClose ?s\<rparr>"
      using server_closed_client_eq [OF after(1) after(2) _ after(3)] by simp
    have "trace (server_closed ?st) = trace ?st @ replicate (onClose s + 2) ClientClose"
      unfolding closed by simp
    moreover have "closing (server_closed ?st) = closing st + onClose s + 2"
      unfolding closed using after(5) by simp
    moreover have "exited (server_closed ?st) = None"
      unfolding closed using after(3) by simp
    moreover have "timers (server_closed ?st) = timers st + 2"
      unfolding closed using after(6) by simp
    ultimately show ?thesis
      by (simp add: close_settled_def closeCallback_resume_exits force_exit_def
            process_exit_def)
  qed
  have without_client: "trace (server_closed ?st) = trace ?st
      \<and> exited (server_closed ?st) = Some 0"
    if "mcpClient st = None"
  proof -
    have "mcpClient ?st = None"
      using that after(4) by simp
    then show ?thesis
      using server_closed_no_client_eq [OF after(1) after(2) _ after(3)]
      by (simp add: process_exit_def)
  qed
  show ?thesis
    using twice with_client without_client closeCallback_resume_exits [of w st] by blast
qed

theorem shutdown_twice_witness:
  "server (start (answering tool_error) keyed)
     = Some \<lparr>listening = True, onClose = 0, drained = False\<rparr>
   \<and> exited (start (answering tool_error) keyed) = None
   \<and> mcpClient (start (answering tool_error) keyed) \<noteq> None
   \<and> trace (server_closed
        (gracefulShutdown (gracefulShutdown (start (answering tool_error) keyed))))
       = trace (gracefulShutdown (gracefulShutdown (start (answering tool_error) keyed)))
         @ [ClientClose, ClientClose]
   \<and> exited (close_settled (answering tool_error) (server_closed
        (gracefulShutdown (gracefulShutdown (start (answering tool_error) keyed))))) = Some 0"
proof -
  let ?w = "answering tool_error"
  let ?s = "\<lparr>listening = True, onClose = 0, drained = False\<rparr>"
  have ok: "snd (initMCPClient ?w keyed initial) = None"
    by (simp add: initMCPClient_def answering_def keyed_def unset_def Let_def)
  have listening: "server (start ?w keyed) = Some ?s"
    using ok by (intro start_succeeds) (simp_all add: keyed_def unset_def)
  have alive: "exited (start ?w keyed) = None"
    using listening start_listening(4) [of ?w keyed] by simp
  have up: "mcpClient (start ?w keyed) \<noteq> None"
    by (simp add: sample_start)
  have two: "replicate (onClose ?s + 2) ClientClose = [ClientClose, ClientClose]"
    by (simp add: numeral_2_eq_2)
  have both: "trace (server_closed (gracefulShutdown (gracefulShutdown (start ?w keyed))))
        = trace (gracefulShutdown (gracefulShutdown (start ?w keyed)))
          @ replicate (onClose ?s + 2) ClientClose
      \<and> exited (close_settled ?w
          (server_closed (gracefulShutdown (gracefulShutdown (start ?w keyed))))) = Some 0"
    using up shutdown_twice [OF listening alive, of ?w] by blast
  show ?thesis
    using listening alive up both unfolding two by blast
qed

text \<open>
  Claim C6 as stated fails: two signals before the server has drained make two calls of
  \<^verbatim>\<open>close\<close> on the session.
\<close>

theorem two_signals_close_twice:
  "count_list (trace (run (answering tool_error) keyed [Signal, Signal, Drained])) ClientClose = 2
   \<and> exited (run (answering tool_error) keyed [Signal, Signal, Drained, Settled]) = Some 0"
  by (simp add: run_def step_def start_def initMCPClient_def answering_def
        keyed_def unset_def Let_def emit_def warned_def initial_def
        gracefulShutdown_def server_closed_def closeCallback_begin_def closeCallback_resume_def
        close_settled_def process_exit_def numeral_2_eq_2)

section \<open>Properties of the error normalizer\<close>

text \<open>
  The walk over the prototype chain never replaces a truthy entry of \<^verbatim>\<open>allProps\<close>, and
  an own property whose getter throws is entered with the marker string.
\<close>

lemma allProps_get_update:
  "allProps_get (AList.update p v a) q = (if q = p then v else allProps_get a q)"
  by (simp add: allProps_get_def update_conv')

lemma capture_other: "q \<noteq> p \<Longrightarrow> allProps_get (capture ob a p) q = allProps_get a q"
  by (simp add: capture_def allProps_get_update split: sum.splits)

lemma capture_keeps:
  "truthy (allProps_get a q) \<Longrightarrow> allProps_get (capture ob a p) q = allProps_get a q"
  by (cases "q = p") (simp_all add: capture_other, simp add: capture_def)

lemma level_keeps:
  "truthy (allProps_get a q) \<Longrightarrow> allProps_get (foldl (capture ob) a ps) q = allProps_get a q"
  by (induction ps arbitrary: a) (simp_all add: capture_keeps)

lemma level_other:
  "q \<notin> set ps \<Longrightarrow> allProps_get (foldl (capture ob) a ps) q = allProps_get a q"
  by (induction ps arbitrary: a) (simp_all add: capture_other)

lemma walk_keeps:
  "truthy (allProps_get a q) \<Longrightarrow> allProps_get (walk ob a) q = allProps_get a q"
proof (induction ob a rule: walk.induct)
  case (1 ps pr a)
  then show ?case
    by (cases pr) (simp_all add: level_keeps Let_def)
qed


lemma capture_throwing:
  assumes "get_prop ob p = Inl e" "p \<noteq> ''stack''" "\<not> truthy (allProps_get a p)"
  shows "allProps_get (capture ob a p) p = Json (JStr ''[Cannot access]'')"
  using assms by (simp add: capture_def allProps_get_update)

lemma level_throwing:
  assumes "get_prop ob p = Inl e" "p \<noteq> ''stack''"
  shows "p \<in> set ps \<Longrightarrow> \<not> truthy (allProps_get a p) \<Longrightarrow>
         allProps_get (foldl (capture ob) a ps) p = Json (JStr ''[Cannot access]'')"
proof (induction ps arbitrary: a)
  case Nil
  then show ?case by simp
next
  case (Cons x ps)
  show ?case
  proof (cases "x = p")
    case True
    have "allProps_get (capture ob a p) p = Json (JStr ''[Cannot access]'')"
      using assms Cons.prems(2) by (rule capture_throwing)
    then show ?thesis
      using True by (simp add: level_keeps)
  next
    case False
    then have "p \<in> set ps" "\<not> truthy (allProps_get (capture ob a x) p)"
      using Cons.prems by (simp_all add: capture_other)
    then show ?thesis
      using Cons.IH by simp
  qed
qed

lemma walk_throwing:
  assumes "p \<noteq> ''stack''"
  shows "get_prop ob p = Inl e \<Longrightarrow> \<not> truthy (allProps_get a p) \<Longrightarrow>
         allProps_get (walk ob a) p = Json (JStr ''[Cannot access]'')"
proof (induction ob a rule: walk.induct)
  case (1 ps pr a)
  let ?a' = "foldl (capture (Obj ps pr)) a (map fst ps)"
  show ?case
  proof (cases "map_of ps p")
    case None
    then have out: "p \<notin> set (map fst ps)"
      by (simp add: map_of_eq_None_iff)
    then have same: "allProps_get ?a' p = allProps_get a p"
      by (rule level_other)
    from None "1.prems"(1) obtain q where q: "pr = Some q" "get_prop q p = Inl e"
      by (cases pr) simp_all
    then show ?thesis
      using "1.IH" [OF refl q(1) q(2)] same "1.prems"(2) by (simp add: Let_def)
  next
    case (Some s)
    then have "p \<in> set (map fst ps)"
      by (metis map_of_eq_None_iff option.distinct(1) set_map)
    then have marked: "allProps_get ?a' p = Json (JStr ''[Cannot access]'')"
      using level_throwing [OF "1.prems"(1) assms] "1.prems"(2) by blast
    then show ?thesis
      by (cases pr) (simp_all add: Let_def walk_keeps)
  qed
qed

text \<open>
  Claim C7, as the code has it. For an error that is an object whose \<^verbatim>\<open>message\<close>,
  \<^verbatim>\<open>name\<close>, \<^verbatim>\<open>code\<close>, \<^verbatim>\<open>data\<close> and \<^verbatim>\<open>stack\<close> can be read, \<^verbatim>\<open>serializeError\<close>
  returns an envelope and does not throw. The five fields are what was read, also when that
  is \<^verbatim>\<open>undefined\<close>: there is no generic message and no kind. A property whose getter
  throws while the prototype chain is walked is swallowed and entered as
  \<^verbatim>\<open>[Cannot access]\<close>.
\<close>

theorem serializeError_of_object:
  assumes reads: "get_prop ob ''message'' = Inr m" "get_prop ob ''name'' = Inr n"
    "get_prop ob ''code'' = Inr c" "get_prop ob ''data'' = Inr d" "get_prop ob ''stack'' = Inr s"
  shows "serializeError (EObj ob) =
           Inr \<lparr>message = m, errorObj.name = n, code = c, data = d, stack = s,
                allProperties = Some (walk ob []), serializationError = None\<rparr>
       \<and> (\<forall>p e. get_prop ob p = Inl e \<and> p \<noteq> ''stack''
                  \<and> p \<notin> set (map fst (props Object_prototype))
              \<longrightarrow> map_of (walk ob []) p = Some (Json (JStr ''[Cannot access]'')))"
proof -
  have envelope: "serializeError (EObj ob) =
      Inr \<lparr>message = m, errorObj.name = n, code = c, data = d, stack = s,
           allProperties = Some (walk ob []), serializationError = None\<rparr>"
    using reads by (simp add: serializeError_def and_then_def)
  have swallowed: "map_of (walk ob []) p = Some (Json (JStr ''[Cannot access]''))"
    if thrown: "get_prop ob p = Inl e" and p: "p \<noteq> ''stack''"
      "p \<notin> set (map fst (props Object_prototype))" for p e
  proof -
    have "\<not> truthy (allProps_get [] p)"
      using p(2) by (simp add: allProps_get_def)
    then have "allProps_get (walk ob []) p = Json (JStr ''[Cannot access]'')"
      using walk_throwing [OF p(1) thrown] by blast
    then show ?thesis
      using p(2) by (simp add: allProps_get_def split: option.splits if_splits)
  qed
  show ?thesis
    using envelope swallowed by blast
qed

theorem serializeError_of_object_witness:
  "get_prop guarded_error ''message'' = Inr Undefined
   \<and> get_prop guarded_error ''code'' = Inr (Json (JNum 0))
   \<and> get_prop guarded_error ''secret'' = Inl (js_error ''Error'' ''denied'')
   \<and> serializeError (EObj guarded_error) =
       Inr \<lparr>message = Undefined, errorObj.name = Undefined, code = Json (JNum 0),
            data = Undefined, stack = Undefined,
            allProperties = Some (walk guarded_error []), serializationError = None\<rparr>
   \<and> map_of (walk guarded_error []) ''secret'' = Some (Json (JStr ''[Cannot access]''))
   \<and> walk guarded_error [] =
       [(''code'', Json (JNum 7)), (''secret'', Json (JStr ''[Cannot access]''))]"
proof -
  have reads: "get_prop guarded_error ''message'' = Inr Undefined"
    "get_prop guarded_error ''name'' = Inr Undefined"
    "get_prop guarded_error ''code'' = Inr (Json (JNum 0))"
    "get_prop guarded_error ''data'' = Inr Undefined"
    "get_prop guarded_error ''stack'' = Inr Undefined"
    by (simp_all add: guarded_error_def)
  have thrown: "get_prop guarded_error ''secret'' = Inl (js_error ''Error'' ''denied'')"
    by (simp add: guarded_error_def)
  have fresh: "''secret'' \<noteq> ''stack''"
    "''secret'' \<notin> set (map fst (props Object_prototype))"
    by (simp_all add: Object_prototype_def)
  have walked: "walk guarded_error [] =
      [(''code'', Json (JNum 7)), (''secret'', Json (JStr ''[Cannot access]''))]"
    by (simp add: guarded_error_def capture_def allProps_get_def Object_prototype_def)
  show ?thesis
    using reads thrown fresh walked serializeError_of_object [OF reads] by blast
qed

text \<open>
  Claim C7 as stated fails: \<^verbatim>\<open>serializeError(null)\<close> throws a \<^verbatim>\<open>TypeError\<close> at its
  first property read, and an object without a message gets \<^verbatim>\<open>undefined\<close> for its
  message, not a generic text.
\<close>

theorem serializeError_null_throws:
  "serializeError ENull =
     Inl (js_error ''TypeError'' ''Cannot read properties of null (reading 'message')'')
   \<and> serializeError (EObj (Obj [] None)) =
     Inr \<lparr>message = Undefined, errorObj.name = Undefined, code = Undefined, data = Undefined,
          stack = Undefined, allProperties = Some [], serializationError = None\<rparr>"
  by (simp add: serializeError_def and_then_def)

section \<open>The verifier without a credential\<close>

text \<open>
  Claim C8, as the code has it. Without a configured credential the middleware calls
  \<^verbatim>\<open>next()\<close> for every request, so that every protected route answers what its
  handler answers. It writes one warning for each request; the other warning is written
  once, when the process starts (unless the start is refused in production). The
  middleware does nothing else.
\<close>

theorem authentication_disabled:
  assumes off: "unset (API_KEY cfg)"
  shows "authenticateApiKey w cfg req = ([request_warning], Next)
       \<and> (\<forall>r. protected r w cfg st req = ([request_warning], handler r w st req))
       \<and> (\<not> unset (MCP_SERVER_URL cfg) \<and> NODE_ENV cfg \<noteq> Some ''production'' \<longrightarrow>
            (\<forall>evs. count_list (trace (run w cfg evs)) (ConsoleWarn startup_warning) = 1))"
proof -
  have verifier: "authenticateApiKey w cfg req = ([request_warning], Next)"
    using off by (simp add: authenticateApiKey_def)
  then have routes: "protected r w cfg st req = ([request_warning], handler r w st req)" for r
    by (simp add: protected_def)
  have once: "count_list (trace (run w cfg evs)) (ConsoleWarn startup_warning) = 1"
    if ok: "\<not> unset (MCP_SERVER_URL cfg)" "NODE_ENV cfg \<noteq> Some ''production''" for evs
  proof -
    obtain es where es: "trace (start w cfg) = trace (warned cfg) @ es"
        "ConsoleWarn startup_warning \<notin> set es"
      using start_warned [of cfg w] ok by blast
    obtain es' where es': "trace (run w cfg evs) = trace (start w cfg) @ es'"
        "ConsoleWarn startup_warning \<notin> set es'"
      unfolding run_def using steps_add by blast
    have "trace (warned cfg) = [ConsoleWarn startup_warning]"
      using off by (simp add: warned_def emit_def initial_fields)
    then show ?thesis
      using es es' by (simp add: count_list_0_iff)
  qed
  show ?thesis
    using verifier routes once by blast
qed

theorem authentication_disabled_witness:
  "unset (API_KEY keyless)
   \<and> protected GET_tools (answering tool_error) keyless (start (answering tool_error) keyless)
        plain_request
      = ([request_warning], \<lparr>reply = Sent (res_json tool_error), calls = [ListTools]\<rparr>)
   \<and> count_list (trace (run (answering tool_error) keyless
          [Request GET_tools plain_request, Request GET_gaql_doc plain_request]))
        (ConsoleWarn startup_warning) = 1"
proof -
  have off: "unset (API_KEY keyless)"
    by (simp add: keyless_def unset_def)
  have config: "\<not> unset (MCP_SERVER_URL keyless)" "NODE_ENV keyless \<noteq> Some ''production''"
    by (simp_all add: keyless_def keyed_def unset_def)
  have up: "mcpClient (start (answering tool_error) keyless) = Some Connected"
    by (simp add: start_def initMCPClient_def answering_def keyless_def keyed_def unset_def
          Let_def emit_def warned_def)
  have tools: "handler GET_tools (answering tool_error) (start (answering tool_error) keyless)
      plain_request = \<lparr>reply = Sent (res_json tool_error), calls = [ListTools]\<rparr>"
    using up by (simp add: get_tools_def answering_def tool_error_def)
  show ?thesis
    using off config tools
      authentication_disabled [OF off, of "answering tool_error" plain_request
        "start (answering tool_error) keyless"]
    by simp
qed

text \<open>
  Claim C8 as stated fails: the verifier does log on a request, and two requests leave two
  such lines.
\<close>

theorem verifier_warns_on_every_request:
  "authenticateApiKey (answering tool_error) keyless plain_request = ([request_warning], Next)
   \<and> count_list (trace (run (answering tool_error) keyless
         [Request GET_tools plain_request, Request GET_tools plain_request]))
       (ConsoleWarn request_warning) = 2"
  by (simp add: run_def step_def serving_def serve_def protected_def authenticateApiKey_def
        start_def initMCPClient_def answering_def keyless_def keyed_def unset_def Let_def emit_def
        warned_def initial_def get_tools_def tool_error_def startup_warning_def
        request_warning_def)

section \<open>Startup\<close>

text \<open>
  Claim C9. \<^verbatim>\<open>initMCPClient\<close> is called at most once in any run of the process, and
  \<^verbatim>\<open>app.listen\<close> at most once, after it. When \<^verbatim>\<open>initMCPClient\<close> fails, the process
  has exited with code 1 without a server, and no later event makes it listen. When the
  configuration is accepted and \<^verbatim>\<open>initMCPClient\<close> succeeds, the calls of the start are
  \<^verbatim>\<open>initMCPClient\<close>, \<^verbatim>\<open>connect\<close>, the \<^verbatim>\<open>listTools\<close> probe and then
  \<^verbatim>\<open>app.listen\<close>, in this order, and the client is connected when the server listens.
\<close>

theorem listener_after_initialize:
  "(snd (initMCPClient w cfg initial) \<noteq> None \<longrightarrow>
      (\<forall>evs. exited (run w cfg evs) = Some 1 \<and> server (run w cfg evs) = None
             \<and> AppListen \<notin> set (trace (run w cfg evs))))
   \<and> (\<not> unset (MCP_SERVER_URL cfg)
        \<and> \<not> (unset (API_KEY cfg) \<and> NODE_ENV cfg = Some ''production'')
        \<and> snd (initMCPClient w cfg initial) = None \<longrightarrow>
      server (start w cfg) = Some \<lparr>listening = True, onClose = 0, drained = False\<rparr>
      \<and> exited (start w cfg) = None
      \<and> mcpClient (start w cfg) = Some Connected
      \<and> trace (start w cfg)
          = trace (warned cfg) @ [InitMCPClient, ClientConnect, ClientListTools, AppListen])
   \<and> (\<forall>evs. count_list (trace (run w cfg evs)) InitMCPClient \<le> 1
            \<and> count_list (trace (run w cfg evs)) AppListen \<le> 1)"
proof -
  have failed: "exited (run w cfg evs) = Some 1 \<and> server (run w cfg evs) = None
      \<and> AppListen \<notin> set (trace (run w cfg evs))"
    if "snd (initMCPClient w cfg initial) \<noteq> None" for evs
  proof -
    have "exited (start w cfg) \<noteq> None"
      using start_failed(1) [OF that] by simp
    then have "run w cfg evs = start w cfg"
      unfolding run_def by (rule steps_exited)
    then show ?thesis
      using start_failed [OF that] by simp
  qed
  have listening: "server (start w cfg) = Some \<lparr>listening = True, onClose = 0, drained = False\<rparr>
      \<and> exited (start w cfg) = None \<and> mcpClient (start w cfg) = Some Connected
      \<and> trace (start w cfg)
          = trace (warned cfg) @ [InitMCPClient, ClientConnect, ClientListTools, AppListen]"
    if "\<not> unset (MCP_SERVER_URL cfg)"
       "\<not> (unset (API_KEY cfg) \<and> NODE_ENV cfg = Some ''production'')"
       "snd (initMCPClient w cfg initial) = None"
  proof -
    have "server (start w cfg) \<noteq> None"
      using start_succeeds [OF that] by simp
    then show ?thesis
      using start_listening [of w cfg] by blast
  qed
  have once: "count_list (trace (run w cfg evs)) InitMCPClient \<le> 1
      \<and> count_list (trace (run w cfg evs)) AppListen \<le> 1" for evs
  proof -
    obtain es where es: "trace (run w cfg evs) = trace (start w cfg) @ es"
        "InitMCPClient \<notin> set es" "AppListen \<notin> set es"
      unfolding run_def using steps_add by blast
    then have "count_list es InitMCPClient = 0" "count_list es AppListen = 0"
      by (simp_all add: count_list_0_iff)
    then show ?thesis
      using es(1) start_counts [of w cfg] by simp
  qed
  show ?thesis
    using failed listening once by blast
qed

theorem listener_after_initialize_witness:
  "snd (initMCPClient refusing keyed initial) \<noteq> None
   \<and> exited (run refusing keyed [Signal]) = Some 1
   \<and> server (run refusing keyed [Signal]) = None
   \<and> snd (initMCPClient (answering JNull) keyed initial) = None
   \<and> server (start (answering JNull) keyed) = Some \<lparr>listening = True, onClose = 0, drained = False\<rparr>
   \<and> trace (start (answering JNull) keyed)
       = [InitMCPClient, ClientConnect, ClientListTools, AppListen]"
proof -
  have refused: "snd (initMCPClient refusing keyed initial) \<noteq> None"
    by (simp add: initMCPClient_def refusing_def disconnected_def answering_def keyed_def
          unset_def Let_def)
  have accepted: "snd (initMCPClient (answering JNull) keyed initial) = None"
    by (simp add: initMCPClient_def answering_def keyed_def unset_def Let_def)
  have config: "\<not> unset (MCP_SERVER_URL keyed)"
    "\<not> (unset (API_KEY keyed) \<and> NODE_ENV keyed = Some ''production'')"
    by (simp_all add: keyed_def unset_def)
  have quiet: "trace (warned keyed) = []"
    by (simp add: warned_def keyed_def unset_def initial_fields)
  show ?thesis
    using refused accepted config quiet
      listener_after_initialize [of refusing keyed]
      listener_after_initialize [of "answering JNull" keyed]
    by simp
qed

text \<open>
  Claim C10. In every invocation that the GAQL handler builds, the argument
  \<^verbatim>\<open>login_customer_id\<close> is there with the value \<^verbatim>\<open>null\<close> when the body's field is
  absent or empty; in every invocation that the reporting-view handler builds, the same
  holds of \<^verbatim>\<open>view\<close> and the query parameter; and so in both versions of the handlers. The reporting-view handler
  builds its invocation whenever the client exists, the GAQL handler whenever the request
  passes its validation.
\<close>

theorem optional_argument_is_null:
  "(\<forall>t. CallTool t \<in> set (calls (post_execute_gaql w st req))
          \<and> \<not> truthy (field (body req) ''login_customer_id'')
       \<longrightarrow> map_of (arguments t) ''login_customer_id'' = Some (Json JNull))
   \<and> (\<forall>t. CallTool t \<in> set (calls (post_execute_gaql_plain w st req))
          \<and> \<not> truthy (field (body req) ''login_customer_id'')
       \<longrightarrow> map_of (arguments t) ''login_customer_id'' = Some (Json JNull))
   \<and> (\<forall>t. (CallTool t \<in> set (calls (get_reporting_view_doc w st req))
              \<or> CallTool t \<in> set (calls (get_reporting_view_doc_plain w st req)))
          \<and> \<not> truthy (field (query req) ''view'')
       \<longrightarrow> map_of (arguments t) ''view'' = Some (Json JNull))
   \<and> (mcpClient st \<noteq> None
       \<longrightarrow> calls (get_reporting_view_doc w st req)
             = [CallTool \<lparr>name = ''get_reporting_view_doc'',
                          arguments = [(''view'', or_null (field (query req) ''view''))]\<rparr>])
   \<and> (mcpClient st \<noteq> None \<and> has_substring (field (body req) ''query'')
          \<and> truthy (field (body req) ''query'') \<and> truthy (field (body req) ''customer_id'')
       \<longrightarrow> calls (post_execute_gaql w st req)
             = [CallTool \<lparr>name = ''execute_gaql'',
                          arguments = [(''query'', field (body req) ''query''),
                                       (''customer_id'', field (body req) ''customer_id''),
                                       (''login_customer_id'',
                                        or_null (field (body req) ''login_customer_id''))]\<rparr>])"
proof -
  have gaql: "map_of (arguments t) ''login_customer_id'' = Some (Json JNull)"
    if "CallTool t \<in> set (calls (post_execute_gaql w st req))"
       "\<not> truthy (field (body req) ''login_customer_id'')" for t
    using that
    by (auto simp: post_execute_gaql_def Let_def call_and_send_calls or_null_def
             split: if_splits)
  have plain: "map_of (arguments t) ''login_customer_id'' = Some (Json JNull)"
    if "CallTool t \<in> set (calls (post_execute_gaql_plain w st req))"
       "\<not> truthy (field (body req) ''login_customer_id'')" for t
    using that
    by (auto simp: post_execute_gaql_plain_def Let_def call_and_send_plain_calls or_null_def
             split: if_splits)
  have view: "map_of (arguments t) ''view'' = Some (Json JNull)"
    if "CallTool t \<in> set (calls (get_reporting_view_doc w st req))
          \<or> CallTool t \<in> set (calls (get_reporting_view_doc_plain w st req))"
       "\<not> truthy (field (query req) ''view'')" for t
    using that
    by (auto simp: get_reporting_view_doc_def get_reporting_view_doc_plain_def Let_def
          call_and_send_calls call_and_send_plain_calls or_null_def split: if_splits)
  have view_called: "calls (get_reporting_view_doc w st req)
      = [CallTool \<lparr>name = ''get_reporting_view_doc'',
                   arguments = [(''view'', or_null (field (query req) ''view''))]\<rparr>]"
    if "mcpClient st \<noteq> None"
    using that by (simp add: get_reporting_view_doc_def Let_def call_and_send_calls)
  have gaql_called: "calls (post_execute_gaql w st req)
      = [CallTool \<lparr>name = ''execute_gaql'',
                   arguments = [(''query'', field (body req) ''query''),
                                (''customer_id'', field (body req) ''customer_id''),
                                (''login_customer_id'',
                                 or_null (field (body req) ''login_customer_id''))]\<rparr>]"
    if "mcpClient st \<noteq> None" "has_substring (field (body req) ''query'')"
       "truthy (field (body req) ''query'')" "truthy (field (body req) ''customer_id'')"
    using that by (simp add: post_execute_gaql_def Let_def call_and_send_calls)
  show ?thesis
    using gaql plain view view_called gaql_called by blast
qed

theorem optional_argument_is_null_witness:
  "CallTool gaql_call
     \<in> set (calls (post_execute_gaql (answering tool_error)
                      (start (answering tool_error) keyed) gaql_request))
   \<and> \<not> truthy (field (body gaql_request) ''login_customer_id'')
   \<and> map_of (arguments gaql_call) ''login_customer_id'' = Some (Json JNull)
   \<and> \<not> truthy (field (query (plain_request\<lparr>query := [(''view'', JStr '''')]\<rparr>)) ''view'')
   \<and> calls (get_reporting_view_doc (answering tool_error) (start (answering tool_error) keyed)
              (plain_request\<lparr>query := [(''view'', JStr '''')]\<rparr>))
       = [CallTool \<lparr>name = ''get_reporting_view_doc'', arguments = [(''view'', Json JNull)]\<rparr>]"
proof -
  let ?w = "answering tool_error"
  let ?req = "plain_request\<lparr>query := [(''view'', JStr '''')]\<rparr>"
  have called: "CallTool gaql_call
      \<in> set (calls (post_execute_gaql ?w (start ?w keyed) gaql_request))"
    by (simp add: sample_gaql)
  have absent: "\<not> truthy (field (body gaql_request) ''login_customer_id'')"
    by (simp add: gaql_request_def field_def)
  have empty: "\<not> truthy (field (query ?req) ''view'')"
    by (simp add: field_def)
  have up: "mcpClient (start ?w keyed) \<noteq> None"
    by (simp add: sample_start)
  have null: "or_null (field (query ?req) ''view'') = Json JNull"
    by (simp add: or_null_def field_def)
  show ?thesis
    using called absent empty up null
      optional_argument_is_null [of ?w "start ?w keyed" gaql_request]
      optional_argument_is_null [of ?w "start ?w keyed" ?req]
    by simp
qed

end
